(* ===== verification/Paystub_Prelude.thy ===== *)
theory Paystub_Prelude
  imports Complex_Main
begin

text \<open>
  Shared vocabulary of the Paystub-Generator development (src/src/PaystubGenerator.js).
  Strings of the program are modelled as Isabelle strings holding their UTF-8 bytes.
  This theory holds the decimal digit printing and reading that the currency formatter
  and the date formatter both use (the digit output of \<open>Intl.NumberFormat\<close> and
  \<open>toLocaleDateString\<close> in the en-US locale), the collection \<open>fmt_simps\<close> of
  evaluation rules the formatter proofs share, and the generic list lemmas they need.
\<close>

named_theorems fmt_simps "evaluation rules of the display formatters"

type_synonym js_string = string

subsection \<open>Decimal digits\<close>

definition digit_char :: "nat \<Rightarrow> char" where
  "digit_char d = ''0123456789'' ! d"

definition is_digit :: "char \<Rightarrow> bool" where
  "is_digit c \<longleftrightarrow> (48::nat) \<le> of_char c \<and> of_char c \<le> (57::nat)"

definition digit_val :: "char \<Rightarrow> nat" where
  "digit_val c = of_char c - 48"

text \<open>The shortest decimal rendering of a natural number, most significant digit first.\<close>

fun show_nat :: "nat \<Rightarrow> string" where
  "show_nat n = (if n < 10 then [digit_char n] else show_nat (n div 10) @ [digit_char (n mod 10)])"

declare show_nat.simps [simp del]

text \<open>Reading a string of decimal digits back, as \<open>StringToNumber\<close> reads \<open>DecimalDigits\<close>.\<close>

definition read_digits :: "string \<Rightarrow> nat" where
  "read_digits s = foldl (\<lambda>n c. 10 * n + digit_val c) 0 s"

subsection \<open>Digit lemmas\<close>

lemma of_char_digit_char [simp]: "d < 10 \<Longrightarrow> of_char (digit_char d) = 48 + d"
  by (auto simp: digit_char_def less_Suc_eq numeral_eq_Suc nth_Cons')

lemma digit_val_digit_char [simp]: "d < 10 \<Longrightarrow> digit_val (digit_char d) = d"
  by (simp add: digit_val_def)

lemma is_digit_digit_char [simp]: "d < 10 \<Longrightarrow> is_digit (digit_char d)"
  by (simp add: is_digit_def)

lemma digit_char_inj: "d < 10 \<Longrightarrow> e < 10 \<Longrightarrow> digit_char d = digit_char e \<longleftrightarrow> d = e"
  by (metis digit_val_digit_char)

lemma read_digits_snoc [simp]: "read_digits (s @ [c]) = 10 * read_digits s + digit_val c"
  by (simp add: read_digits_def)

lemma read_digits_Nil [simp]: "read_digits [] = 0"
  by (simp add: read_digits_def)

lemma read_digits_single [simp]: "read_digits [c] = digit_val c"
  by (simp add: read_digits_def)

lemma show_nat_small [fmt_simps]: "n < 10 \<Longrightarrow> show_nat n = [digit_char n]"
  by (simp add: show_nat.simps)

lemma show_nat_big [fmt_simps]:
  "\<not> n < 10 \<Longrightarrow> show_nat n = show_nat (n div 10) @ [digit_char (n mod 10)]"
  by (simp add: show_nat.simps [of n])

lemma show_nat_not_Nil [simp]: "show_nat n \<noteq> []"
  by (simp add: show_nat.simps)

lemma show_nat_digits: "c \<in> set (show_nat n) \<Longrightarrow> is_digit c"
proof (induction n rule: show_nat.induct)
  case (1 n)
  then show ?case
    by (cases "n < 10") (auto simp: show_nat_small show_nat_big)
qed

lemma read_show_nat [simp]: "read_digits (show_nat n) = n"
proof (induction n rule: show_nat.induct)
  case (1 n)
  then show ?case
    by (cases "n < 10") (simp_all add: show_nat_small show_nat_big)
qed

lemma show_nat_inj: "show_nat m = show_nat n \<longleftrightarrow> m = n"
  by (metis read_show_nat)

lemma length_show_nat_pos: "0 < length (show_nat n)"
  by simp

subsection \<open>Lists\<close>

lemma takeWhile_list_all [simp]: "list_all P xs \<Longrightarrow> takeWhile P xs = xs"
  by (induction xs) auto

lemma dropWhile_list_all [simp]: "list_all P xs \<Longrightarrow> dropWhile P xs = []"
  by (induction xs) auto

lemma take_prefix_drop: "take (length w) s = w \<Longrightarrow> s = w @ drop (length w) s"
  by (metis append_take_drop_id)

end
