(* ===== verification/Record_Model.thy ===== *)
theory Record_Model
  imports Paystub_Prelude
begin

text \<open>
  The record model: the \<open>paystubData\<close> state of the component
  (src/src/PaystubGenerator.js, lines 48--57), the eight controlled inputs of the form
  that edit it (lines 178--268) and the change handler \<open>handleInputChange\<close>
  (lines 81--87). The handler replaces the key named by \<open>e.target.name\<close> in a copy of
  the record; the model keeps the eight keys the program reads as record fields and
  names them by the datatype \<open>field\<close>. A name outside the eight would add a key that no
  part of the component reads; the model leaves the record unchanged there.
\<close>

record paystub =
  name :: js_string
  payPeriodStart :: js_string
  payPeriodEnd :: js_string
  payDate :: js_string
  grossPay :: js_string
  ytdGross :: js_string
  transactionHash :: js_string
  safeUrl :: js_string

datatype field =
    Name | PayPeriodStart | PayPeriodEnd | PayDate
  | GrossPay | YtdGross | TransactionHash | SafeUrl

definition all_fields :: "field list" where
  "all_fields = [Name, PayPeriodStart, PayPeriodEnd, PayDate, GrossPay, YtdGross,
     TransactionHash, SafeUrl]"

text \<open>The initial state of \<open>useState\<close>: every field the empty string.\<close>

definition initial_paystub :: paystub where
  "initial_paystub =
     \<lparr>name = [], payPeriodStart = [], payPeriodEnd = [], payDate = [], grossPay = [],
      ytdGross = [], transactionHash = [], safeUrl = []\<rparr>"

text \<open>The \<open>name\<close> attribute of the input that edits each field.\<close>

fun input_name :: "field \<Rightarrow> js_string" where
  "input_name Name = ''name''"
| "input_name PayPeriodStart = ''payPeriodStart''"
| "input_name PayPeriodEnd = ''payPeriodEnd''"
| "input_name PayDate = ''payDate''"
| "input_name GrossPay = ''grossPay''"
| "input_name YtdGross = ''ytdGross''"
| "input_name TransactionHash = ''transactionHash''"
| "input_name SafeUrl = ''safeUrl''"

text \<open>The key \<open>[name]\<close> of the computed property in the handler, read back as a field.\<close>

definition field_of_name :: "js_string \<Rightarrow> field option" where
  "field_of_name n = find (\<lambda>f. input_name f = n) all_fields"

text \<open>\<open>paystubData[key]\<close> for the eight keys: what each controlled input shows.\<close>

fun get_field :: "field \<Rightarrow> paystub \<Rightarrow> js_string" where
  "get_field Name d = name d"
| "get_field PayPeriodStart d = payPeriodStart d"
| "get_field PayPeriodEnd d = payPeriodEnd d"
| "get_field PayDate d = payDate d"
| "get_field GrossPay d = grossPay d"
| "get_field YtdGross d = ytdGross d"
| "get_field TransactionHash d = transactionHash d"
| "get_field SafeUrl d = safeUrl d"

text \<open>\<open>{...prevData, [name]: value}\<close> for one of the eight keys.\<close>

fun set_field :: "field \<Rightarrow> js_string \<Rightarrow> paystub \<Rightarrow> paystub" where
  "set_field Name v d = d\<lparr>name := v\<rparr>"
| "set_field PayPeriodStart v d = d\<lparr>payPeriodStart := v\<rparr>"
| "set_field PayPeriodEnd v d = d\<lparr>payPeriodEnd := v\<rparr>"
| "set_field PayDate v d = d\<lparr>payDate := v\<rparr>"
| "set_field GrossPay v d = d\<lparr>grossPay := v\<rparr>"
| "set_field YtdGross v d = d\<lparr>ytdGross := v\<rparr>"
| "set_field TransactionHash v d = d\<lparr>transactionHash := v\<rparr>"
| "set_field SafeUrl v d = d\<lparr>safeUrl := v\<rparr>"

text \<open>
  \<open>handleInputChange\<close>: the event's target carries a name and a value; the functional
  update passed to \<open>setPaystubData\<close> replaces that key of the previous record.
\<close>

definition handleInputChange :: "js_string \<Rightarrow> js_string \<Rightarrow> paystub \<Rightarrow> paystub" where
  "handleInputChange n v d = (case field_of_name n of Some f \<Rightarrow> set_field f v d | None \<Rightarrow> d)"

text \<open>
  Edits reported by the inputs, applied in order: React applies the queued functional
  updates of \<open>setPaystubData\<close> one after the other, each to the result of the last.
\<close>

fun apply_edits :: "(js_string \<times> js_string) list \<Rightarrow> paystub \<Rightarrow> paystub" where
  "apply_edits [] d = d"
| "apply_edits ((n, v) # es) d = apply_edits es (handleInputChange n v d)"

text \<open>The abstract view of a record: a total map from the eight fields to strings.\<close>

definition field_map :: "paystub \<Rightarrow> field \<Rightarrow> js_string" where
  "field_map d = (\<lambda>f. get_field f d)"

text \<open>The latest value written to a field by a sequence of edits, else its old value.\<close>

definition latest_value :: "field \<Rightarrow> (js_string \<times> js_string) list \<Rightarrow> js_string \<Rightarrow> js_string" where
  "latest_value f es old =
     (case filter (\<lambda>(n, v). n = input_name f) es of [] \<Rightarrow> old | xs \<Rightarrow> snd (last xs))"

subsection \<open>Lemmas of the record model\<close>

lemma field_of_name_input_name [simp]: "field_of_name (input_name f) = Some f"
  by (cases f) (simp_all add: field_of_name_def all_fields_def)

lemma field_of_name_Some: "field_of_name n = Some f \<Longrightarrow> n = input_name f"
  by (auto simp: field_of_name_def dest: find_Some_iff [THEN iffD1])

lemma input_name_inj: "input_name f = input_name g \<longleftrightarrow> f = g"
  by (metis field_of_name_input_name option.inject)

lemma get_set_field [simp]: "get_field g (set_field f v d) = (if g = f then v else get_field g d)"
  by (cases f; cases g) simp_all

lemma set_field_eq_iff: "d = d' \<longleftrightarrow> (\<forall>f. get_field f d = get_field f d')"
proof
  assume "\<forall>f. get_field f d = get_field f d'"
  then have "name d = name d' \<and> payPeriodStart d = payPeriodStart d' \<and>
      payPeriodEnd d = payPeriodEnd d' \<and> payDate d = payDate d' \<and> grossPay d = grossPay d' \<and>
      ytdGross d = ytdGross d' \<and> transactionHash d = transactionHash d' \<and>
      safeUrl d = safeUrl d'"
    by (metis get_field.simps)
  then show "d = d'" by (cases d, cases d') simp
qed simp

lemma handleInputChange_input_name [simp]:
  "handleInputChange (input_name f) v d = set_field f v d"
  by (simp add: handleInputChange_def)

lemma handleInputChange_other:
  "field_of_name n = None \<Longrightarrow> handleInputChange n v d = d"
  by (simp add: handleInputChange_def)

lemma get_handleInputChange:
  "get_field g (handleInputChange n v d) = (if n = input_name g then v else get_field g d)"
  by (auto simp: handleInputChange_def input_name_inj dest: field_of_name_Some
      split: option.split)

lemma field_of_name_None: "field_of_name n = None \<longleftrightarrow> (\<forall>f. n \<noteq> input_name f)"
  by (metis field_of_name_Some field_of_name_input_name not_Some_eq)

subsection \<open>Properties of the record model\<close>

text \<open>
  C18: refinement of the record by a total map: the handler acts on the abstract view as a
  function update, so that applying the same edit twice equals applying it once and edits
  of different fields commute.
\<close>

theorem handleInputChange_refines_update:
  "field_map (handleInputChange n v d) =
     (case field_of_name n of Some f \<Rightarrow> (field_map d)(f := v) | None \<Rightarrow> field_map d)"
  by (rule ext) (auto simp: field_map_def handleInputChange_def split: option.split)

text \<open>
  C19: edits are applied strictly in order: after a sequence of edits every field holds the
  value of the last edit reported for it, and the old value where there was none.
\<close>

theorem apply_edits_latest:
  "get_field f (apply_edits es d) = latest_value f es (get_field f d)"
proof (induction es arbitrary: d)
  case Nil
  then show ?case by (simp add: latest_value_def)
next
  case (Cons e es)
  obtain n v where e: "e = (n, v)" by fastforce
  show ?case
    using Cons.IH [of "handleInputChange n v d"]
    by (auto simp: e latest_value_def get_handleInputChange split: list.split)
qed

end
