(* ===== verification/Currency_Format.thy ===== *)
theory Currency_Format
  imports Paystub_Prelude
begin

text \<open>
  The currency formatter \<open>formatCurrency\<close> (src/src/PaystubGenerator.js, lines 89--96):
  \<open>new Intl.NumberFormat("en-US", {style: "currency", currency: "USD",
  minimumFractionDigits: 2, maximumFractionDigits: 2}).format(amount || 0)\<close>.
  The amount is a field of the record, a string. \<open>amount || 0\<close> passes the Number 0
  for the empty string and the string itself otherwise. \<open>format\<close> converts its argument
  by ECMA-402's \<open>ToIntlMathematicalValue\<close>, which reads a string as an exact decimal
  (the grammar \<open>StringNumericLiteral\<close> of ECMA-262: surrounding white space, a sign,
  \<open>Infinity\<close>, digits with an optional fraction and exponent, or a \<open>0x\<close>/\<open>0o\<close>/\<open>0b\<close>
  integer); a string outside the grammar is NaN. Values that round to infinity or to zero
  as a double become infinity and (signed) zero. The value is then rounded to two
  fractional digits half away from zero (\<open>halfExpand\<close>, the default rounding mode) and
  printed with the en-US currency pattern: a minus sign for negative values and negative
  zero, the dollar sign, the integer part grouped by threes with commas, a point and two
  digits. NaN prints as \<open>$NaN\<close>, infinity as \<open>$\<infinity>\<close>.
\<close>

subsection \<open>Intl mathematical values\<close>

text \<open>
  \<open>IntlDec neg m e\<close> is the exact decimal \<open>(-1)^neg * m * 10^e\<close>; with \<open>m = 0\<close> and
  \<open>neg\<close> it is ECMA-402's negative-zero.
\<close>

datatype intl_mv = IntlNaN | IntlInf bool | IntlDec bool nat int

subsection \<open>White space\<close>

text \<open>
  \<open>StrWhiteSpaceChar\<close>: tab, vertical tab, form feed, space, no-break space, the other
  space separators, byte order mark, line feed, carriage return, line and paragraph
  separator, as their UTF-8 byte sequences.
\<close>

definition js_ws_seqs :: "string list" where
  "js_ws_seqs =
     [[CHR 0x09], [CHR 0x0B], [CHR 0x0C], [CHR 0x20], [CHR 0x0A], [CHR 0x0D],
      [CHR 0xC2, CHR 0xA0], [CHR 0xE1, CHR 0x9A, CHR 0x80],
      [CHR 0xE2, CHR 0x80, CHR 0x80], [CHR 0xE2, CHR 0x80, CHR 0x81],
      [CHR 0xE2, CHR 0x80, CHR 0x82], [CHR 0xE2, CHR 0x80, CHR 0x83],
      [CHR 0xE2, CHR 0x80, CHR 0x84], [CHR 0xE2, CHR 0x80, CHR 0x85],
      [CHR 0xE2, CHR 0x80, CHR 0x86], [CHR 0xE2, CHR 0x80, CHR 0x87],
      [CHR 0xE2, CHR 0x80, CHR 0x88], [CHR 0xE2, CHR 0x80, CHR 0x89],
      [CHR 0xE2, CHR 0x80, CHR 0x8A], [CHR 0xE2, CHR 0x80, CHR 0xA8],
      [CHR 0xE2, CHR 0x80, CHR 0xA9], [CHR 0xE2, CHR 0x80, CHR 0xAF],
      [CHR 0xE2, CHR 0x81, CHR 0x9F], [CHR 0xE3, CHR 0x80, CHR 0x80],
      [CHR 0xEF, CHR 0xBB, CHR 0xBF]]"

function strip_lead :: "string list \<Rightarrow> string \<Rightarrow> string" where
  "strip_lead ws s =
     (case filter (\<lambda>w. w \<noteq> [] \<and> take (length w) s = w) ws of
        [] \<Rightarrow> s
      | w # _ \<Rightarrow> strip_lead ws (drop (length w) s))"
  by pat_completeness auto
termination
proof (relation "measure (\<lambda>(ws, s). length s)")
  fix ws :: "string list" and s w :: string and rest :: "string list"
  assume "filter (\<lambda>w. w \<noteq> [] \<and> take (length w) s = w) ws = w # rest"
  then have "w \<noteq> []" and "take (length w) s = w"
    by (auto dest!: filter_eq_ConsD)
  then have "0 < length w" and "length w \<le> length s"
    by (auto dest: arg_cong [of _ _ length])
  then have "length s - length w < length s"
    by linarith
  then show "((ws, drop (length w) s), ws, s) \<in> measure (\<lambda>(ws, s). length s)"
    by simp
qed simp

declare strip_lead.simps [simp del]

definition js_trim :: "string \<Rightarrow> string" where
  "js_trim s = rev (strip_lead (map rev js_ws_seqs) (rev (strip_lead js_ws_seqs s)))"

subsection \<open>The grammar StringNumericLiteral\<close>

definition hex_val :: "char \<Rightarrow> nat" where
  "hex_val c =
     (if is_digit c then digit_val c
      else if (97::nat) \<le> of_char c \<and> of_char c \<le> (102::nat) then of_char c - (87::nat)
      else of_char c - (55::nat))"

definition is_base_digit :: "nat \<Rightarrow> char \<Rightarrow> bool" where
  "is_base_digit b c \<longleftrightarrow>
     (if b = 16 then is_digit c \<or> ((97::nat) \<le> of_char c \<and> of_char c \<le> (102::nat))
        \<or> ((65::nat) \<le> of_char c \<and> of_char c \<le> (70::nat))
      else is_digit c \<and> digit_val c < b)"

definition read_base :: "nat \<Rightarrow> string \<Rightarrow> nat" where
  "read_base b s = foldl (\<lambda>n c. b * n + hex_val c) 0 s"

text \<open>\<open>NonDecimalIntegerLiteral\<close>: \<open>0b\<close>, \<open>0o\<close> or \<open>0x\<close> and at least one digit.\<close>

definition parse_non_decimal :: "string \<Rightarrow> nat option" where
  "parse_non_decimal s =
     (case s of
        c0 # c1 # ds \<Rightarrow>
          (let b = (if c1 \<in> {CHR ''b'', CHR ''B''} then 2
                    else if c1 \<in> {CHR ''o'', CHR ''O''} then 8
                    else if c1 \<in> {CHR ''x'', CHR ''X''} then 16 else 0)
           in if c0 = CHR ''0'' \<and> b \<noteq> 0 \<and> ds \<noteq> [] \<and> list_all (is_base_digit b) ds
              then Some (read_base b ds) else None)
      | _ \<Rightarrow> None)"

text \<open>\<open>ExponentPart\<close> after the \<open>e\<close>: an optional sign and at least one digit.\<close>

definition parse_signed_int :: "string \<Rightarrow> int option" where
  "parse_signed_int s =
     (let (sg, ds) = (case s of
                        c # r \<Rightarrow> if c = CHR ''-'' then (-1, r)
                                 else if c = CHR ''+'' then (1, r) else (1, s)
                      | [] \<Rightarrow> (1, []))
      in if ds \<noteq> [] \<and> list_all is_digit ds then Some (sg * int (read_digits ds)) else None)"

text \<open>
  \<open>StrUnsignedDecimalLiteral\<close>: \<open>Infinity\<close>, or digits, an optional point and
  fraction digits (one of the two digit runs not empty), and an optional exponent.
\<close>

definition parse_unsigned_decimal :: "string \<Rightarrow> intl_mv option" where
  "parse_unsigned_decimal s =
     (if s = ''Infinity'' then Some (IntlInf False)
      else
        let ip = takeWhile is_digit s; r1 = dropWhile is_digit s;
            (fp, r2) = (case r1 of
                          c # r \<Rightarrow> if c = CHR ''.'' then (takeWhile is_digit r, dropWhile is_digit r)
                                   else ([], r1)
                        | [] \<Rightarrow> ([], []));
            ex = (case r2 of
                    [] \<Rightarrow> Some 0
                  | c # r \<Rightarrow> if c = CHR ''e'' \<or> c = CHR ''E'' then parse_signed_int r else None)
        in if ip = [] \<and> fp = [] then None
           else case ex of
                  None \<Rightarrow> None
                | Some x \<Rightarrow> Some (IntlDec False (read_digits (ip @ fp)) (x - int (length fp))))"

text \<open>
  \<open>StrDecimalLiteral\<close> with its sign; \<open>StringIntlMV\<close> of \<open>- StrUnsignedDecimalLiteral\<close>
  is negative-zero for zero and negative infinity for infinity.
\<close>

definition negate_mv :: "intl_mv \<Rightarrow> intl_mv" where
  "negate_mv v = (case v of IntlDec _ m e \<Rightarrow> IntlDec True m e | IntlInf _ \<Rightarrow> IntlInf True | IntlNaN \<Rightarrow> IntlNaN)"

definition parse_numeric_literal :: "string \<Rightarrow> intl_mv option" where
  "parse_numeric_literal s =
     (case parse_non_decimal s of
        Some n \<Rightarrow> Some (IntlDec False n 0)
      | None \<Rightarrow>
          (case s of
             c # r \<Rightarrow> if c = CHR ''-'' then map_option negate_mv (parse_unsigned_decimal r)
                      else if c = CHR ''+'' then parse_unsigned_decimal r
                      else parse_unsigned_decimal s
           | [] \<Rightarrow> None))"

text \<open>\<open>StringIntlMV\<close> of a whole string: only white space is 0; no parse is NaN.\<close>

definition string_intl_mv :: "string \<Rightarrow> intl_mv" where
  "string_intl_mv s =
     (let t = js_trim s in
      if t = [] then IntlDec False 0 0
      else case parse_numeric_literal t of None \<Rightarrow> IntlNaN | Some v \<Rightarrow> v)"

subsection \<open>Rounding to a double: the range checks of ToIntlMathematicalValue\<close>

text \<open>
  \<open>RoundMVResult\<close> of a magnitude is infinity exactly from the midpoint
  \<open>2^1024 - 2^970\<close> between the largest double and \<open>2^1024\<close> upwards (ties go to the even
  neighbour, infinity), and zero exactly up to \<open>2^-1075\<close>, half the least subnormal.
\<close>

definition mv_overflows :: "nat \<Rightarrow> int \<Rightarrow> bool" where
  "mv_overflows m e \<longleftrightarrow>
     (if 0 \<le> e then (2::int) ^ 1024 - 2 ^ 970 \<le> int m * 10 ^ nat e
      else ((2::int) ^ 1024 - 2 ^ 970) * 10 ^ nat (- e) \<le> int m)"

definition mv_underflows :: "nat \<Rightarrow> int \<Rightarrow> bool" where
  "mv_underflows m e \<longleftrightarrow>
     (if 0 \<le> e then m = 0 else int m * 2 ^ 1075 \<le> 10 ^ nat (- e))"

definition round_mv_result :: "intl_mv \<Rightarrow> intl_mv" where
  "round_mv_result v =
     (case v of
        IntlDec neg m e \<Rightarrow>
          if mv_overflows m e then IntlInf neg
          else if mv_underflows m e then IntlDec neg 0 0
          else v
      | _ \<Rightarrow> v)"

definition to_intl_mv :: "string \<Rightarrow> intl_mv" where
  "to_intl_mv s = round_mv_result (string_intl_mv s)"

subsection \<open>The en-US currency pattern\<close>

text \<open>Rounding a magnitude \<open>m * 10^e\<close> to whole cents, half away from zero.\<close>

definition cents_of :: "nat \<Rightarrow> int \<Rightarrow> nat" where
  "cents_of m e =
     (if - 2 \<le> e then m * 10 ^ nat (e + 2)
      else let k = 10 ^ nat (- e - 2); q = m div k; r = m mod k
           in if k \<le> 2 * r then q + 1 else q)"

text \<open>Grouping of the integer digits by threes from the right, with commas.\<close>

function group3 :: "string \<Rightarrow> string" where
  "group3 s =
     (if length s \<le> 3 then s
      else group3 (take (length s - 3) s) @ CHR '','' # drop (length s - 3) s)"
  by pat_completeness auto
termination
  by (relation "measure length") auto

declare group3.simps [simp del]

definition two_digits :: "nat \<Rightarrow> string" where
  "two_digits c = [digit_char (c div 10), digit_char (c mod 10)]"

definition infinity_sign :: string where
  "infinity_sign = [CHR 0xE2, CHR 0x88, CHR 0x9E]"

definition sign_prefix :: "bool \<Rightarrow> string" where
  "sign_prefix neg = (if neg then ''-'' else [])"

text \<open>The digits of an amount of whole cents: grouped dollars, a point, two digits.\<close>

definition usd_amount :: "nat \<Rightarrow> string" where
  "usd_amount c = group3 (show_nat (c div 100)) @ ''.'' @ two_digits (c mod 100)"

definition format_usd :: "intl_mv \<Rightarrow> string" where
  "format_usd v =
     (case v of
        IntlNaN \<Rightarrow> ''$NaN''
      | IntlInf neg \<Rightarrow> sign_prefix neg @ ''$'' @ infinity_sign
      | IntlDec neg m e \<Rightarrow> sign_prefix neg @ ''$'' @ usd_amount (cents_of m e))"

text \<open>Reference grouping: every three digits from the right, a comma if more follow.\<close>

fun ins3 :: "string \<Rightarrow> string" where
  "ins3 (a # b # c # d # r) = a # b # c # CHR '','' # ins3 (d # r)"
| "ins3 r = r"

text \<open>\<open>formatCurrency(amount)\<close>: \<open>amount || 0\<close> is the Number 0 for the empty string.\<close>

definition formatCurrency :: "js_string \<Rightarrow> js_string" where
  "formatCurrency amount =
     format_usd (if amount = [] then IntlDec False 0 0 else to_intl_mv amount)"

text \<open>Evaluation rules for closed instances.\<close>

lemmas currency_eval [fmt_simps] = formatCurrency_def format_usd_def to_intl_mv_def
  round_mv_result_def string_intl_mv_def js_trim_def js_ws_seqs_def strip_lead.simps
  parse_numeric_literal_def parse_non_decimal_def parse_unsigned_decimal_def
  parse_signed_int_def negate_mv_def mv_overflows_def mv_underflows_def cents_of_def
  two_digits_def usd_amount_def sign_prefix_def read_digits_def digit_val_def is_digit_def group3.simps
  show_nat_small show_nat_big digit_char_def

subsection \<open>Lemmas: trimming and parsing of decimal strings\<close>

lemma strip_lead_no_match:
  assumes "\<forall>w\<in>set ws. w \<noteq> [] \<longrightarrow> take (length w) s \<noteq> w"
  shows "strip_lead ws s = s"
proof -
  have "filter (\<lambda>w. w \<noteq> [] \<and> take (length w) s = w) ws = []"
    using assms by (auto simp add: filter_empty_conv)
  then show ?thesis by (simp add: strip_lead.simps [of ws s])
qed

lemma take_length_Cons_eq: "w \<noteq> [] \<Longrightarrow> take (length w) (c # r) = w \<Longrightarrow> hd w = c"
  by (cases w) auto

lemma strip_lead_first_char:
  assumes "c \<notin> hd ` set ws"
  shows "strip_lead ws (c # r) = c # r"
  using assms by (intro strip_lead_no_match) (auto dest: take_length_Cons_eq)

definition decimal_char :: "char \<Rightarrow> bool" where
  "decimal_char c \<longleftrightarrow> is_digit c \<or> c = CHR ''.''"

lemma decimal_char_not_ws_first: "decimal_char c \<Longrightarrow> c \<notin> hd ` set js_ws_seqs"
  by (auto simp: decimal_char_def is_digit_def js_ws_seqs_def)

lemma decimal_char_not_ws_last: "decimal_char c \<Longrightarrow> c \<notin> hd ` set (map rev js_ws_seqs)"
  by (auto simp: decimal_char_def is_digit_def js_ws_seqs_def)

lemma js_trim_keep:
  assumes "s = c # r" and "c \<notin> hd ` set js_ws_seqs"
    and "rev s = d # q" and "d \<notin> hd ` set (map rev js_ws_seqs)"
  shows "js_trim s = s"
proof -
  have 1: "strip_lead js_ws_seqs s = s"
    using assms(1,2) by (simp add: strip_lead_first_char)
  have "strip_lead (map rev js_ws_seqs) (d # q) = d # q"
    using assms(4) by (rule strip_lead_first_char)
  with assms(3) have 2: "strip_lead (map rev js_ws_seqs) (rev s) = rev s"
    by simp
  show ?thesis
    by (simp add: js_trim_def 1 2)
qed

lemma last_decimal_char:
  assumes "list_all decimal_char s" and "rev s = d # q"
  shows "decimal_char d"
  using assms by (metis list.set_intros(1) list_all_iff set_rev)

lemma js_trim_decimal:
  assumes "s \<noteq> []" and "list_all decimal_char s"
  shows "js_trim s = s"
proof -
  obtain c r where s: "s = c # r" using assms(1) by (cases s) auto
  obtain d q where rs: "rev s = d # q" using assms(1) by (cases "rev s") auto
  show ?thesis
    using assms(2) s rs
    by (intro js_trim_keep [OF s _ rs] decimal_char_not_ws_first decimal_char_not_ws_last
        last_decimal_char [OF assms(2) rs]) simp
qed

lemma parse_non_decimal_decimal:
  "list_all decimal_char s \<Longrightarrow> parse_non_decimal s = None"
  by (auto simp: parse_non_decimal_def decimal_char_def is_digit_def split: list.split)

lemma digits_decimal_char: "list_all is_digit s \<Longrightarrow> list_all decimal_char s"
  by (simp add: list_all_iff decimal_char_def)

lemma point_not_digit [simp]: "\<not> is_digit CHR ''.''"
  by (simp add: is_digit_def)

lemma parse_unsigned_decimal_point:
  assumes "list_all is_digit ip" and "list_all is_digit fp" and "ip \<noteq> [] \<or> fp \<noteq> []"
  shows "parse_unsigned_decimal (ip @ CHR ''.'' # fp) =
           Some (IntlDec False (read_digits (ip @ fp)) (- int (length fp)))"
proof -
  have "ip @ CHR ''.'' # fp \<noteq> ''Infinity''"
    using assms(1) by (cases ip) (auto simp: is_digit_def)
  moreover have "takeWhile is_digit (ip @ CHR ''.'' # fp) = ip"
    using assms(1) by (simp add: list_all_iff)
  moreover have "dropWhile is_digit (ip @ CHR ''.'' # fp) = CHR ''.'' # fp"
    using assms(1) by (simp add: list_all_iff)
  ultimately show ?thesis
    using assms(2,3) by (simp add: parse_unsigned_decimal_def)
qed

lemma parse_unsigned_decimal_int:
  assumes "list_all is_digit ip" and "ip \<noteq> []"
  shows "parse_unsigned_decimal ip = Some (IntlDec False (read_digits ip) 0)"
proof -
  have "ip \<noteq> ''Infinity''"
    using assms(1) by (cases ip) (auto simp: is_digit_def)
  then show ?thesis
    using assms by (simp add: parse_unsigned_decimal_def)
qed

lemma parse_unsigned_decimal_value:
  assumes "list_all is_digit ip" and "list_all is_digit fp" and "ip \<noteq> []"
    and "s = ip @ CHR ''.'' # fp \<or> (fp = [] \<and> s = ip)"
  shows "parse_unsigned_decimal s =
           Some (IntlDec False (read_digits (ip @ fp)) (- int (length fp)))"
  using assms parse_unsigned_decimal_point [of ip fp] parse_unsigned_decimal_int [of ip]
  by auto

lemma decimal_string_chars:
  assumes "list_all is_digit ip" and "list_all is_digit fp"
    and "s = ip @ CHR ''.'' # fp \<or> (fp = [] \<and> s = ip)"
  shows "list_all decimal_char s"
  using assms by (auto simp: list_all_iff decimal_char_def)

lemma string_intl_mv_decimal:
  assumes "list_all decimal_char s" and "s \<noteq> []" and "parse_unsigned_decimal s = Some v"
  shows "string_intl_mv s = v"
proof -
  obtain c r where s: "s = c # r" using assms(2) by (cases s) auto
  have "c \<noteq> CHR ''-''" and "c \<noteq> CHR ''+''"
    using assms(1) by (auto simp: s decimal_char_def is_digit_def)
  then show ?thesis
    using assms by (simp add: string_intl_mv_def js_trim_decimal parse_numeric_literal_def
        parse_non_decimal_decimal s)
qed

lemma pos_mult_bound_False:
  "0 < (m::int) \<Longrightarrow> m * 2 ^ 1075 \<le> m * 200 \<Longrightarrow> False"
  by simp

lemma cents_of_underflow: "mv_underflows m e \<Longrightarrow> cents_of m e = 0"
proof (cases "m = 0")
  case False
  assume u: "mv_underflows m e"
  then have e: "e < 0" and le: "int m * 2 ^ 1075 \<le> 10 ^ nat (- e)"
    using False by (auto simp: mv_underflows_def split: if_splits)
  have m: "0 < int m" using False by simp
  show ?thesis
  proof (cases "- 2 \<le> e")
    case True
    then have "nat (- e) \<le> 2" using e by simp
    then have "(10::int) ^ nat (- e) \<le> 10 ^ 2" by (rule power_increasing) simp
    then have "(10::int) ^ nat (- e) \<le> 100" by simp
    with le m have "int m * 2 ^ 1075 \<le> int m * 200" by linarith
    with m show ?thesis by (blast dest: pos_mult_bound_False)
  next
    case False
    define k where "k = (10::nat) ^ nat (- e - 2)"
    have "nat (- e) = nat (- e - 2) + 2" using False by simp
    then have "(10::int) ^ nat (- e) = 100 * int k"
      by (simp add: k_def power_add)
    with le have le': "int m * 2 ^ 1075 \<le> 100 * int k" by simp
    have "2 * m < k"
    proof (rule ccontr)
      assume "\<not> 2 * m < k"
      then have "100 * int k \<le> int m * 200" by simp
      with le' have "int m * 2 ^ 1075 \<le> int m * 200" by linarith
      with m show False by (rule pos_mult_bound_False)
    qed
    then show ?thesis
      using False by (simp add: cents_of_def k_def [symmetric] Let_def)
  qed
qed (simp add: cents_of_def)

lemma cents_of_zero [simp]: "cents_of 0 e = 0"
  by (simp add: cents_of_def Let_def)

lemma format_usd_round_nonneg:
  "\<not> mv_overflows m e \<Longrightarrow>
     format_usd (round_mv_result (IntlDec neg m e)) = sign_prefix neg @ ''$'' @ usd_amount (cents_of m e)"
  by (auto simp: round_mv_result_def format_usd_def cents_of_underflow)

lemma ins3_short: "length xs \<le> 3 \<Longrightarrow> ins3 xs = xs"
  by (cases xs rule: ins3.cases) auto

lemma ins3_append3: "length xs = 3 \<Longrightarrow> ys \<noteq> [] \<Longrightarrow> ins3 (xs @ ys) = xs @ CHR '','' # ins3 ys"
  by (cases ys; cases xs rule: ins3.cases) (auto simp: numeral_eq_Suc length_Suc_conv)

subsection \<open>Properties of the currency formatter\<close>

text \<open>
  C8: the decimal strings a number input produces (digits, optionally a point and fraction
  digits) are formatted as their value rounded half away from zero to whole cents: a dollar
  sign, the dollars grouped by threes, a point and two cent digits.
\<close>

theorem formatCurrency_decimal:
  assumes "list_all is_digit ip" and "list_all is_digit fp" and "ip \<noteq> []"
    and "s = ip @ CHR ''.'' # fp \<or> (fp = [] \<and> s = ip)"
    and "\<not> mv_overflows (read_digits (ip @ fp)) (- int (length fp))"
  shows "formatCurrency s = ''$'' @ usd_amount (cents_of (read_digits (ip @ fp)) (- int (length fp)))"
proof -
  have "s \<noteq> []" using assms(3,4) by auto
  moreover have "string_intl_mv s = IntlDec False (read_digits (ip @ fp)) (- int (length fp))"
    using assms(1-4) \<open>s \<noteq> []\<close>
    by (intro string_intl_mv_decimal decimal_string_chars parse_unsigned_decimal_value) auto
  ultimately show ?thesis
    using assms(5) by (simp add: formatCurrency_def to_intl_mv_def format_usd_round_nonneg
        sign_prefix_def)
qed

text \<open>
  C27: rounding to cents is half away from zero: the printed cents differ from the exact
  value times one hundred by at most one half, and an exact half rounds up.
\<close>

theorem cents_of_bounds:
  "- 1 / 2 < real (cents_of m e) - real m * (10::real) powi (e + 2) \<and>
   real (cents_of m e) - real m * (10::real) powi (e + 2) \<le> 1 / 2"
proof (cases "- 2 \<le> e")
  case True
  then have "(10::real) powi (e + 2) = 10 ^ nat (e + 2)"
    by (simp add: power_int_def)
  then show ?thesis
    using True by (simp add: cents_of_def)
next
  case False
  define k where "k = (10::nat) ^ nat (- e - 2)"
  have k0: "0 < k" by (simp add: k_def)
  have "e + 2 = - int (nat (- e - 2))" using False by simp
  then have "(10::real) powi (e + 2) = inverse (10 ^ nat (- e - 2))"
    by (simp only: power_int_minus power_int_of_nat)
  then have pw: "(10::real) powi (e + 2) = 1 / real k"
    by (simp add: k_def divide_inverse)
  define q r where "q = m div k" and "r = m mod k"
  have mr: "real m = real k * real q + real r" and rk: "r < k"
    using k0 by (simp_all add: q_def r_def flip: of_nat_mult of_nat_add)
  have c: "cents_of m e = (if k \<le> 2 * r then q + 1 else q)"
    using False by (simp add: cents_of_def Let_def k_def [symmetric] q_def r_def)
  have "real (cents_of m e) - real m * (1 / real k) =
        (real k * real (cents_of m e) - real m) / real k"
    using k0 by (simp add: field_simps)
  moreover have "- real k < 2 * (real k * real (cents_of m e) - real m) \<and>
                 2 * (real k * real (cents_of m e) - real m) \<le> real k"
  proof (cases "k \<le> 2 * r")
    case True
    then have "real (cents_of m e) = real q + 1" by (simp add: c)
    moreover have "real k \<le> 2 * real r" and "real r < real k" using True rk by linarith+
    ultimately show ?thesis by (simp add: mr algebra_simps)
  next
    case False
    then have "real (cents_of m e) = real q" by (simp add: c)
    moreover have "2 * real r < real k" using False by linarith
    ultimately show ?thesis by (simp add: mr algebra_simps)
  qed
  ultimately show ?thesis
    using k0 by (simp add: pw field_simps)
qed

text \<open>
  C28: the grouping of the dollar digits equals the reference grouping that walks the
  digits from the right and puts a comma after every third digit that has more before it.
\<close>

theorem group3_eq_ins3: "group3 s = rev (ins3 (rev s))"
proof (induction s rule: group3.induct)
  case (1 s)
  show ?case
  proof (cases "length s \<le> 3")
    case True
    then show ?thesis by (simp add: group3.simps [of s] ins3_short)
  next
    case False
    define a b where "a = take (length s - 3) s" and "b = drop (length s - 3) s"
    have s: "s = a @ b" by (simp add: a_def b_def)
    have lb: "length (rev b) = 3" and na: "rev a \<noteq> []"
      using False by (auto simp: a_def b_def)
    have "group3 s = group3 a @ CHR '','' # b"
      using False by (simp add: group3.simps [of s] a_def b_def)
    also have "\<dots> = rev (ins3 (rev a)) @ CHR '','' # b"
      using "1.IH" False by (simp add: a_def)
    also have "\<dots> = rev (ins3 (rev b @ rev a))"
      using lb na by (simp add: ins3_append3)
    finally show ?thesis by (simp add: s)
  qed
qed

lemma strip_lead_Nil [simp]: "strip_lead ws [] = []"
  by (rule strip_lead_no_match) auto

lemma js_trim_Nil [simp]: "js_trim [] = []"
  by (simp add: js_trim_def)

lemma parse_unsigned_decimal_Nil [simp]: "parse_unsigned_decimal [] = None"
  by (simp add: parse_unsigned_decimal_def)

lemma parse_unsigned_decimal_dec:
  assumes "list_all decimal_char x" and "parse_unsigned_decimal x = Some v"
  shows "\<exists>m e. v = IntlDec False m e"
proof -
  have "x \<noteq> ''Infinity''"
    using assms(1) by (auto simp: decimal_char_def is_digit_def)
  then show ?thesis
    using assms(2)
    by (auto simp: parse_unsigned_decimal_def Let_def split: if_splits option.splits
        list.splits prod.splits)
qed

lemma format_usd_round_neg:
  "format_usd (round_mv_result (IntlDec True m e)) =
     CHR ''-'' # format_usd (round_mv_result (IntlDec False m e))"
  by (simp add: round_mv_result_def format_usd_def sign_prefix_def)

lemma minus_char_not_ws: "CHR ''-'' \<notin> hd ` set js_ws_seqs"
  by (auto simp: js_ws_seqs_def)

lemma parse_non_decimal_minus [simp]: "parse_non_decimal (CHR ''-'' # x) = None"
  by (simp add: parse_non_decimal_def split: list.split)

text \<open>
  C29: a leading minus sign is printed before the dollar sign and changes nothing else;
  in particular \<open>"-0"\<close>, negative-zero for ECMA-402, prints as \<open>-$0.00\<close>.
\<close>

theorem formatCurrency_minus:
  assumes "list_all decimal_char x" and "parse_unsigned_decimal x \<noteq> None"
  shows "formatCurrency (CHR ''-'' # x) = CHR ''-'' # formatCurrency x"
proof -
  obtain v where v: "parse_unsigned_decimal x = Some v" using assms(2) by auto
  then obtain m e where mv: "v = IntlDec False m e"
    using assms(1) parse_unsigned_decimal_dec by blast
  have x: "x \<noteq> []" using v by auto
  obtain d q where rs: "rev x = d # q" using x by (cases "rev x") auto
  have d: "decimal_char d" by (rule last_decimal_char [OF assms(1) rs])
  have "js_trim (CHR ''-'' # x) = CHR ''-'' # x"
  proof (rule js_trim_keep [where c = "CHR ''-''" and r = x and d = d and q = "q @ [CHR ''-'']"])
    show "CHR ''-'' \<notin> hd ` set js_ws_seqs" by (rule minus_char_not_ws)
    show "rev (CHR ''-'' # x) = d # q @ [CHR ''-'']" using rs by simp
    show "d \<notin> hd ` set (map rev js_ws_seqs)" using d by (rule decimal_char_not_ws_last)
  qed simp
  then have "string_intl_mv (CHR ''-'' # x) = IntlDec True m e"
    using v mv by (simp add: string_intl_mv_def parse_numeric_literal_def negate_mv_def)
  moreover have "string_intl_mv x = IntlDec False m e"
    using string_intl_mv_decimal [OF assms(1) x v] mv by simp
  ultimately show ?thesis
    using x by (simp add: formatCurrency_def to_intl_mv_def format_usd_round_neg)
qed

text \<open>
  C30: a non-empty string that is not a numeric literal is formatted as \<open>$NaN\<close>; the
  formatter does not fall back to zero for it (only the empty string becomes 0, through
  \<open>amount || 0\<close>, and a string of white space through \<open>StringToNumber\<close>).
\<close>

theorem formatCurrency_not_numeric:
  assumes "js_trim s \<noteq> []" and "parse_numeric_literal (js_trim s) = None"
  shows "formatCurrency s = ''$NaN''"
proof -
  have "s \<noteq> []" using assms(1) by auto
  then show ?thesis
    using assms by (simp add: formatCurrency_def to_intl_mv_def string_intl_mv_def
        round_mv_result_def format_usd_def)
qed

subsection \<open>Witnesses\<close>

lemma formatCurrency_decimal_witness:
  "list_all is_digit ''1234'' \<and> list_all is_digit ''5'' \<and> ''1234'' \<noteq> [] \<and>
   \<not> mv_overflows (read_digits ''12345'') (- 1) \<and> formatCurrency ''1234.5'' = ''$1,234.50''"
proof -
  have h: "list_all is_digit ''1234''" "list_all is_digit ''5''"
      "\<not> mv_overflows (read_digits (''1234'' @ ''5'')) (- int (length ''5''))"
    by (simp_all add: currency_eval)
  have "formatCurrency ''1234.5'' =
      ''$'' @ usd_amount (cents_of (read_digits (''1234'' @ ''5'')) (- int (length ''5'')))"
    by (rule formatCurrency_decimal [OF h(1,2) _ _ h(3)]) simp_all
  also have "\<dots> = ''$1,234.50''" by (simp add: currency_eval)
  finally show ?thesis using h by simp
qed

lemma cents_of_bounds_witness:
  "cents_of 1005 (- 3) = 101 \<and>
   - 1 / 2 < real (cents_of 1005 (- 3)) - real (1005::nat) * (10::real) powi (- 3 + 2) \<and>
   real (cents_of 1005 (- 3)) - real (1005::nat) * (10::real) powi (- 3 + 2) \<le> 1 / 2"
  using cents_of_bounds [of 1005 "- 3"] by (simp add: cents_of_def)

lemma formatCurrency_minus_witness:
  "list_all decimal_char ''0'' \<and> parse_unsigned_decimal ''0'' \<noteq> None \<and>
   formatCurrency ''-0'' = ''-$0.00''"
proof -
  have h: "list_all decimal_char ''0''" "parse_unsigned_decimal ''0'' \<noteq> None"
    by (simp_all add: decimal_char_def currency_eval)
  have "formatCurrency (CHR ''-'' # ''0'') = CHR ''-'' # formatCurrency ''0''"
    by (rule formatCurrency_minus [OF h])
  then show ?thesis using h by (simp add: currency_eval)
qed

lemma formatCurrency_not_numeric_witness:
  "js_trim ''abc'' \<noteq> [] \<and> parse_numeric_literal (js_trim ''abc'') = None \<and>
   formatCurrency ''abc'' = ''$NaN''"
proof -
  have h: "js_trim ''abc'' \<noteq> []" "parse_numeric_literal (js_trim ''abc'') = None"
    by (simp_all add: currency_eval)
  show ?thesis using h formatCurrency_not_numeric [OF h] by simp
qed

end
