(* ===== verification/Date_Format.thy ===== *)
theory Date_Format
  imports Paystub_Prelude
begin

text \<open>
  The date formatter \<open>formatDate\<close> (src/src/PaystubGenerator.js, lines 98--109):
  \<^verbatim>\<open>
  if (!dateString) return "";
  const date = new Date(dateString);
  const offset = date.getTimezoneOffset();
  const adjustedDate = new Date(date.getTime() + offset * 60 * 1000);
  return adjustedDate.toLocaleDateString("en-US",
           {year: "numeric", month: "short", day: "numeric", timeZone: "UTC"});
  \<close>
  Time values are milliseconds since the epoch (\<open>int\<close>), NaN is \<open>None\<close>. ECMA-262
  reads the date-only forms of its Date Time String Format (\<open>YYYY\<close>, \<open>YYYY-MM\<close>,
  \<open>YYYY-MM-DD\<close>, and the same with a signed six-digit year) as UTC midnight; every other
  string is parsed by implementation-specific heuristics, which the model takes from the
  environment (\<open>parse_fallback\<close>), as it takes \<open>getTimezoneOffset\<close>, the local time
  zone's offset in minutes (UTC minus local time) at a time value (\<open>tz_offset\<close>). The
  calendar arithmetic is ECMA-262's: \<open>DayFromYear\<close>, \<open>YearFromTime\<close> (the largest
  year whose first day is not after the day), \<open>MonthFromTime\<close>, \<open>DateFromTime\<close>,
  \<open>MakeDay\<close> and \<open>TimeClip\<close>. The en-US rendering of the date is the pattern
  \<open>MMM d, y\<close>.
\<close>

record date_env =
  tz_offset :: "int \<Rightarrow> int"
  parse_fallback :: "string \<Rightarrow> int option"

subsection \<open>Time values\<close>

definition ms_per_day :: int where
  "ms_per_day = 86400000"

definition max_time :: int where
  "max_time = 8640000000000000"

definition time_clip :: "int \<Rightarrow> int option" where
  "time_clip t = (if \<bar>t\<bar> \<le> max_time then Some t else None)"

subsection \<open>Years\<close>

definition days_in_year :: "int \<Rightarrow> int" where
  "days_in_year y =
     (if y mod 4 \<noteq> 0 then 365 else if y mod 100 \<noteq> 0 then 366
      else if y mod 400 \<noteq> 0 then 365 else 366)"

definition in_leap_year :: "int \<Rightarrow> bool" where
  "in_leap_year y \<longleftrightarrow> days_in_year y = 366"

definition day_from_year :: "int \<Rightarrow> int" where
  "day_from_year y =
     365 * (y - 1970) + (y - 1969) div 4 - (y - 1901) div 100 + (y - 1601) div 400"

lemma div_succ_step:
  assumes "1 < (k::int)"
  shows "(a + 1) div k - a div k = (if (a + 1) mod k = 0 then 1 else 0)"
proof -
  have "(a + 1) div k = a div k + 1 div k + (a mod k + 1 mod k) div k"
    by (rule div_add1_eq)
  moreover have "1 div k = 0" and "1 mod k = 1" using assms by simp_all
  moreover have "0 \<le> a mod k" and "a mod k < k" using assms by simp_all
  moreover have "(a + 1) mod k = (a mod k + 1) mod k" by (simp add: mod_add_left_eq)
  ultimately show ?thesis
    by (cases "a mod k + 1 = k") (auto simp: div_pos_pos_trivial mod_pos_pos_trivial)
qed

lemma dvd_diff_const: "(k::int) dvd c \<Longrightarrow> (k dvd (y - c)) = (k dvd y)"
  by (metis dvd_diff diff_add_cancel dvd_add)

lemma div_step:
  assumes "1 < (k::int)" and "k dvd c"
  shows "(y - c) div k - (y - (c + 1)) div k = (if y mod k = 0 then 1 else 0)"
proof -
  have "(y - c) mod k = 0 \<longleftrightarrow> y mod k = 0"
    using dvd_diff_const [OF assms(2), of y] by (simp add: dvd_eq_mod_eq_0)
  moreover have "(y - (c + 1) + 1) div k - (y - (c + 1)) div k =
      (if (y - (c + 1) + 1) mod k = 0 then 1 else 0)"
    by (rule div_succ_step [OF assms(1)])
  ultimately show ?thesis by (simp add: algebra_simps)
qed

lemma mod_divisor_zero: "(k::int) dvd l \<Longrightarrow> y mod l = 0 \<Longrightarrow> y mod k = 0"
proof -
  assume "k dvd l" and "y mod l = 0"
  moreover have "y mod k = (y mod l) mod k" using \<open>k dvd l\<close> by (simp add: mod_mod_cancel)
  ultimately show ?thesis by simp
qed

lemma day_from_year_succ: "day_from_year (y + 1) = day_from_year y + days_in_year y"
proof -
  have "y + 1 - 1969 = y - 1968" "y + 1 - 1901 = y - 1900" "y + 1 - 1601 = y - 1600"
    "y + 1 - 1970 = (y - 1970) + 1" by simp_all
  then have "day_from_year (y + 1) - day_from_year y =
      365 + ((y - 1968) div 4 - (y - (1968 + 1)) div 4)
      - ((y - 1900) div 100 - (y - (1900 + 1)) div 100)
      + ((y - 1600) div 400 - (y - (1600 + 1)) div 400)"
    by (simp add: day_from_year_def)
  also have "\<dots> = 365 + (if y mod 4 = 0 then 1 else 0) - (if y mod 100 = 0 then 1 else 0)
      + (if y mod 400 = 0 then 1 else 0)"
  proof -
    have "(y - 1968) div 4 - (y - (1968 + 1)) div 4 = (if y mod 4 = 0 then 1 else 0)"
      "(y - 1900) div 100 - (y - (1900 + 1)) div 100 = (if y mod 100 = 0 then 1 else 0)"
      "(y - 1600) div 400 - (y - (1600 + 1)) div 400 = (if y mod 400 = 0 then 1 else 0)"
      by (rule div_step; simp)+
    then show ?thesis by (simp only:)
  qed
  also have "\<dots> = days_in_year y"
    using mod_divisor_zero [of 4 100 y] mod_divisor_zero [of 100 400 y]
    by (auto simp: days_in_year_def)
  finally show ?thesis by simp
qed

lemma days_in_year_bounds: "365 \<le> days_in_year y \<and> days_in_year y \<le> 366"
  by (simp add: days_in_year_def)

lemma day_from_year_less_succ: "day_from_year y < day_from_year (y + 1)"
  using days_in_year_bounds [of y] by (simp add: day_from_year_succ)

lemma day_from_year_mono_nat: "day_from_year y \<le> day_from_year (y + int n)"
proof (induction n)
  case (Suc n)
  have "day_from_year (y + int n) < day_from_year (y + int n + 1)"
    by (rule day_from_year_less_succ)
  with Suc show ?case by (simp add: algebra_simps)
qed simp

lemma day_from_year_mono: "a \<le> b \<Longrightarrow> day_from_year a \<le> day_from_year b"
  using day_from_year_mono_nat [of a "nat (b - a)"] by simp

lemma day_from_year_strict_mono: "a < b \<Longrightarrow> day_from_year a < day_from_year b"
  using day_from_year_less_succ [of a] day_from_year_mono [of "a + 1" b] by simp

lemma day_from_year_pred_less: "day_from_year (y - 1) < day_from_year y"
  using day_from_year_less_succ [of "y - 1"] by simp

text \<open>
  \<open>YearFromTime\<close>: the largest year whose first day is not after day \<open>d\<close>, found by
  stepping from an estimate; the distance to the right year shrinks with every step.
\<close>

function year_search :: "int \<Rightarrow> int \<Rightarrow> int" where
  "year_search d y =
     (if d < day_from_year y then year_search d (y - 1)
      else if day_from_year (y + 1) \<le> d then year_search d (y + 1)
      else y)"
  by pat_completeness auto
termination
proof (relation "measure (\<lambda>(d, y). nat (day_from_year y - d) + nat (d - day_from_year (y + 1) + 1))")
  fix d y :: int
  assume a: "d < day_from_year y"
  have "day_from_year (y - 1) < day_from_year y" by (rule day_from_year_pred_less)
  moreover have "day_from_year y < day_from_year (y + 1)" by (rule day_from_year_less_succ)
  ultimately show "((d, y - 1), d, y) \<in> measure (\<lambda>(d, y). nat (day_from_year y - d)
      + nat (d - day_from_year (y + 1) + 1))"
    using a by simp
next
  fix d y :: int
  assume a: "\<not> d < day_from_year y" "day_from_year (y + 1) \<le> d"
  have "day_from_year (y + 1) < day_from_year (y + 1 + 1)" by (rule day_from_year_less_succ)
  then show "((d, y + 1), d, y) \<in> measure (\<lambda>(d, y). nat (day_from_year y - d)
      + nat (d - day_from_year (y + 1) + 1))"
    using a by simp
qed simp

declare year_search.simps [simp del]

definition year_from_day :: "int \<Rightarrow> int" where
  "year_from_day d = year_search d (1970 + (400 * d) div 146097)"

subsection \<open>Months and dates\<close>

text \<open>The day of the year on which month \<open>k\<close> (0 for January) starts.\<close>

definition month_cum :: "nat list" where
  "month_cum = [0, 31, 59, 90, 120, 151, 181, 212, 243, 273, 304, 334, 365]"

definition month_start :: "bool \<Rightarrow> nat \<Rightarrow> int" where
  "month_start leap k = int (month_cum ! k) + (if leap \<and> 2 \<le> k then 1 else 0)"

text \<open>\<open>MonthFromTime\<close>, by ECMA-262's chain of day-within-year ranges.\<close>

definition month_from_dwy :: "bool \<Rightarrow> int \<Rightarrow> nat" where
  "month_from_dwy leap w =
     (if w < month_start leap 1 then 0 else if w < month_start leap 2 then 1
      else if w < month_start leap 3 then 2 else if w < month_start leap 4 then 3
      else if w < month_start leap 5 then 4 else if w < month_start leap 6 then 5
      else if w < month_start leap 7 then 6 else if w < month_start leap 8 then 7
      else if w < month_start leap 9 then 8 else if w < month_start leap 10 then 9
      else if w < month_start leap 11 then 10 else 11)"

text \<open>
  The calendar date (year, month 1--12, day of month) of a day number: \<open>YearFromTime\<close>,
  \<open>MonthFromTime\<close> plus one, \<open>DateFromTime\<close>.
\<close>

definition civil_of_day :: "int \<Rightarrow> int \<times> nat \<times> nat" where
  "civil_of_day d =
     (let y = year_from_day d; w = d - day_from_year y; leap = in_leap_year y;
          mo = month_from_dwy leap w
      in (y, mo + 1, nat (w - month_start leap mo + 1)))"

text \<open>\<open>MakeDay\<close> for a year, a month 1--12 and a day of the month.\<close>

definition make_day :: "int \<Rightarrow> nat \<Rightarrow> nat \<Rightarrow> int" where
  "make_day y m d = day_from_year y + month_start (in_leap_year y) (m - 1) + int d - 1"

definition days_in_month :: "int \<Rightarrow> nat \<Rightarrow> int" where
  "days_in_month y m = month_start (in_leap_year y) m - month_start (in_leap_year y) (m - 1)"

definition valid_date :: "int \<Rightarrow> nat \<Rightarrow> nat \<Rightarrow> bool" where
  "valid_date y m d \<longleftrightarrow> 1 \<le> m \<and> m \<le> 12 \<and> 1 \<le> d \<and> int d \<le> days_in_month y m"

subsection \<open>Parsing the date-only forms\<close>

definition digits_val :: "string \<Rightarrow> nat option" where
  "digits_val s = (if s \<noteq> [] \<and> list_all is_digit s then Some (read_digits s) else None)"

text \<open>The year: four digits, or a sign and six digits (\<open>-000000\<close> is not a year).\<close>

definition parse_year :: "string \<Rightarrow> (int \<times> string) option" where
  "parse_year s =
     (case s of
        c # r \<Rightarrow>
          if c = CHR ''+'' \<or> c = CHR ''-'' then
            (case digits_val (take 6 r) of
               Some n \<Rightarrow> if length r \<ge> 6 \<and> \<not> (c = CHR ''-'' \<and> n = 0)
                         then Some (if c = CHR ''-'' then - int n else int n, drop 6 r) else None
             | None \<Rightarrow> None)
          else (case digits_val (take 4 s) of
                  Some n \<Rightarrow> if length s \<ge> 4 then Some (int n, drop 4 s) else None
                | None \<Rightarrow> None)
      | [] \<Rightarrow> None)"

definition parse_two :: "string \<Rightarrow> (nat \<times> string) option" where
  "parse_two s =
     (case s of
        c # a # b # r \<Rightarrow>
          if c = CHR ''-'' then map_option (\<lambda>n. (n, r)) (digits_val [a, b]) else None
      | _ \<Rightarrow> None)"

text \<open>\<open>YYYY\<close>, \<open>YYYY-MM\<close> or \<open>YYYY-MM-DD\<close>; month and day default to 1.\<close>

definition parse_iso_date :: "string \<Rightarrow> (int \<times> nat \<times> nat) option" where
  "parse_iso_date s =
     (case parse_year s of
        None \<Rightarrow> None
      | Some (y, r) \<Rightarrow>
          (let md = (if r = [] then Some (1, 1)
                     else case parse_two r of
                            None \<Rightarrow> None
                          | Some (m, r2) \<Rightarrow>
                              if r2 = [] then Some (m, 1)
                              else case parse_two r2 of
                                     Some (d, []) \<Rightarrow> Some (m, d)
                                   | _ \<Rightarrow> None)
           in case md of
                Some (m, d) \<Rightarrow> if valid_date y m d then Some (y, m, d) else None
              | None \<Rightarrow> None))"

text \<open>\<open>new Date(string)\<close>: \<open>TimeClip\<close> of the parsed time value.\<close>

definition date_parse :: "date_env \<Rightarrow> string \<Rightarrow> int option" where
  "date_parse env s =
     (case parse_iso_date s of
        Some (y, m, d) \<Rightarrow> time_clip (make_day y m d * ms_per_day)
      | None \<Rightarrow> Option.bind (parse_fallback env s) time_clip)"

subsection \<open>The en-US rendering\<close>

definition month_abbr :: "nat \<Rightarrow> string" where
  "month_abbr m =
     [''Jan'', ''Feb'', ''Mar'', ''Apr'', ''May'', ''Jun'', ''Jul'', ''Aug'', ''Sep'', ''Oct'',
      ''Nov'', ''Dec''] ! (m - 1)"

text \<open>The numeric year of the era: years before 1 are counted backwards from 1.\<close>

definition show_year :: "int \<Rightarrow> string" where
  "show_year y = (if 1 \<le> y then show_nat (nat y) else show_nat (nat (1 - y)))"

definition date_text :: "int \<times> nat \<times> nat \<Rightarrow> string" where
  "date_text c = (case c of (y, m, d) \<Rightarrow> month_abbr m @ '' '' @ show_nat d @ '', '' @ show_year y)"

text \<open>\<open>toLocaleDateString("en-US", {..., timeZone: "UTC"})\<close> of a time value.\<close>

definition to_locale_date_utc :: "int option \<Rightarrow> string" where
  "to_locale_date_utc tv =
     (case tv of None \<Rightarrow> ''Invalid Date'' | Some t \<Rightarrow> date_text (civil_of_day (t div ms_per_day)))"

text \<open>
  \<open>formatDate\<close>: the empty string gives the empty string; otherwise the parsed time is
  moved by the local offset in minutes and printed as a UTC calendar date. On an invalid
  date \<open>getTimezoneOffset()\<close> is NaN and so is the adjusted date.
\<close>

definition formatDate :: "date_env \<Rightarrow> js_string \<Rightarrow> js_string" where
  "formatDate env s =
     (if s = [] then []
      else to_locale_date_utc
             (case date_parse env s of
                None \<Rightarrow> None
              | Some t \<Rightarrow> time_clip (t + tz_offset env t * 60 * 1000)))"

text \<open>UTC midnight of a calendar date: \<open>MakeDate(MakeDay(y, m - 1, d), 0)\<close>.\<close>

definition utc_midnight :: "int \<Rightarrow> nat \<Rightarrow> nat \<Rightarrow> int" where
  "utc_midnight y m d = make_day y m d * ms_per_day"

text \<open>Evaluation rules for closed instances.\<close>

lemmas date_eval [fmt_simps] = formatDate_def to_locale_date_utc_def date_parse_def
  parse_iso_date_def parse_year_def parse_two_def digits_val_def valid_date_def
  days_in_month_def make_day_def civil_of_day_def month_from_dwy_def month_start_def month_cum_def
  in_leap_year_def days_in_year_def day_from_year_def time_clip_def max_time_def
  ms_per_day_def date_text_def month_abbr_def show_year_def utc_midnight_def
  read_digits_def digit_val_def is_digit_def show_nat_small show_nat_big digit_char_def

subsection \<open>Lemmas: years\<close>

lemma year_search_bounds:
  "day_from_year (year_search d y) \<le> d \<and> d < day_from_year (year_search d y + 1)"
proof (induction d y rule: year_search.induct)
  case (1 d y)
  show ?case
  proof (cases "d < day_from_year y")
    case True
    with "1.IH"(1) show ?thesis by (simp add: year_search.simps [of d y])
  next
    case False
    with "1.IH"(2) show ?thesis
      by (cases "day_from_year (y + 1) \<le> d") (simp_all add: year_search.simps [of d y])
  qed
qed

lemma year_unique:
  assumes "day_from_year y \<le> d" "d < day_from_year (y + 1)"
    and "day_from_year y' \<le> d" "d < day_from_year (y' + 1)"
  shows "y = y'"
proof (rule ccontr)
  assume "y \<noteq> y'"
  then have "y + 1 \<le> y' \<or> y' + 1 \<le> y" by linarith
  then show False
    using assms day_from_year_mono [of "y + 1" y'] day_from_year_mono [of "y' + 1" y] by auto
qed

lemma year_from_day_eq:
  "day_from_year y \<le> d \<Longrightarrow> d < day_from_year (y + 1) \<Longrightarrow> year_from_day d = y"
  using year_search_bounds year_unique unfolding year_from_day_def by blast

lemma year_from_day_bounds:
  "day_from_year (year_from_day d) \<le> d \<and> d < day_from_year (year_from_day d + 1)"
  by (simp add: year_from_day_def year_search_bounds)

subsection \<open>Lemmas: months\<close>

lemma month_start_0 [simp]: "month_start leap 0 = 0"
  by (simp add: month_start_def month_cum_def)

lemma month_start_12: "month_start (in_leap_year y) 12 = days_in_year y"
  by (simp add: month_start_def month_cum_def in_leap_year_def days_in_year_def)

lemma month_start_strict:
  assumes "i < j" and "j \<le> 12"
  shows "month_start leap i < month_start leap j"
proof -
  have "sorted_wrt (<) month_cum" and "length month_cum = 13"
    by (simp_all add: month_cum_def)
  then have "month_cum ! i < month_cum ! j"
    using assms by (intro sorted_wrt_nth_less [of "(<)" month_cum i j]) simp_all
  then show ?thesis
    using assms by (auto simp: month_start_def)
qed

lemma month_start_mono: "i \<le> j \<Longrightarrow> j \<le> 12 \<Longrightarrow> month_start leap i \<le> month_start leap j"
  using month_start_strict [of i j leap] by (cases "i = j") simp_all

lemma month_less_iff:
  assumes "mo \<le> 11" and "month_start leap mo \<le> w" and "w < month_start leap (mo + 1)"
    and "k \<le> 12"
  shows "w < month_start leap k \<longleftrightarrow> mo < k"
proof
  assume "w < month_start leap k"
  then show "mo < k"
    using assms month_start_mono [of k mo leap] by (cases "k \<le> mo") auto
next
  assume "mo < k"
  then show "w < month_start leap k"
    using assms month_start_mono [of "mo + 1" k leap] by simp
qed

lemma month_from_dwy_eq:
  assumes "mo \<le> 11" and "month_start leap mo \<le> w" and "w < month_start leap (mo + 1)"
  shows "month_from_dwy leap w = mo"
  using assms unfolding month_from_dwy_def
  by (simp add: month_less_iff [OF assms] split: if_split)

lemma month_exists:
  assumes "k \<le> 11" and "0 \<le> w" and "w < month_start leap (k + 1)"
  shows "\<exists>mo \<le> k. month_start leap mo \<le> w \<and> w < month_start leap (mo + 1)"
  using assms
proof (induction k)
  case 0
  then show ?case by auto
next
  case (Suc k)
  show ?case
  proof (cases "w < month_start leap (k + 1)")
    case True
    with Suc.IH Suc.prems(1,2) obtain mo where "mo \<le> k" "month_start leap mo \<le> w"
        "w < month_start leap (mo + 1)"
      by auto
    then show ?thesis by (intro exI [of _ mo]) simp
  next
    case False
    with Suc.prems(3) show ?thesis by (intro exI [of _ "Suc k"]) simp
  qed
qed

lemma month_from_dwy_bounds:
  assumes "0 \<le> w" and "w < month_start leap 12"
  shows "month_from_dwy leap w \<le> 11 \<and> month_start leap (month_from_dwy leap w) \<le> w
    \<and> w < month_start leap (month_from_dwy leap w + 1)"
proof -
  obtain mo where "mo \<le> 11" "month_start leap mo \<le> w" "w < month_start leap (mo + 1)"
    using month_exists [of 11 w leap] assms by auto
  moreover then have "month_from_dwy leap w = mo" by (rule month_from_dwy_eq)
  ultimately show ?thesis by simp
qed

subsection \<open>Lemmas: calendar dates\<close>

lemma days_in_year_month_start: "days_in_year y = month_start (in_leap_year y) 12"
  by (simp add: month_start_12)

lemma make_day_in_year:
  assumes "valid_date y m d"
  shows "day_from_year y \<le> make_day y m d \<and> make_day y m d < day_from_year (y + 1)"
proof -
  let ?l = "in_leap_year y"
  have m: "1 \<le> m" "m \<le> 12" and dd: "1 \<le> d" "int d \<le> days_in_month y m"
    using assms by (simp_all add: valid_date_def)
  have "0 \<le> month_start ?l (m - 1)"
    using month_start_mono [of 0 "m - 1" ?l] m by simp
  moreover have "month_start ?l m \<le> month_start ?l 12"
    using month_start_mono [of m 12 ?l] m by simp
  ultimately show ?thesis
    using dd by (simp add: make_day_def days_in_month_def day_from_year_succ
        days_in_year_month_start)
qed

lemma civil_of_day_make_day_eq:
  assumes "valid_date y m d"
  shows "civil_of_day (make_day y m d) = (y, m, d)"
proof -
  let ?l = "in_leap_year y"
  let ?w = "month_start ?l (m - 1) + int d - 1"
  have m: "1 \<le> m" "m \<le> 12" and dd: "1 \<le> d" "int d \<le> days_in_month y m"
    using assms by (simp_all add: valid_date_def)
  have y: "year_from_day (make_day y m d) = y"
    using make_day_in_year [OF assms] by (intro year_from_day_eq) simp_all
  have w: "make_day y m d - day_from_year y = ?w"
    by (simp add: make_day_def)
  have "month_start ?l (m - 1) \<le> ?w" and "?w < month_start ?l (m - 1 + 1)"
    using m dd by (simp_all add: days_in_month_def)
  then have mo: "month_from_dwy ?l ?w = m - 1"
    using m by (intro month_from_dwy_eq) simp_all
  show ?thesis
    unfolding civil_of_day_def Let_def y w mo
    using m dd by simp
qed

lemma make_day_civil_of_day:
  assumes "civil_of_day D = (y, m, d)"
  shows "make_day y m d = D \<and> valid_date y m d"
proof -
  let ?y = "year_from_day D"
  let ?l = "in_leap_year ?y"
  let ?w = "D - day_from_year ?y"
  let ?mo = "month_from_dwy ?l ?w"
  have yb: "day_from_year ?y \<le> D" "D < day_from_year (?y + 1)"
    using year_from_day_bounds [of D] by simp_all
  then have "0 \<le> ?w" "?w < month_start ?l 12"
    by (simp_all add: day_from_year_succ days_in_year_month_start)
  then have mo: "?mo \<le> 11" "month_start ?l ?mo \<le> ?w" "?w < month_start ?l (?mo + 1)"
    using month_from_dwy_bounds by blast+
  have eq: "(?y, ?mo + 1, nat (?w - month_start ?l ?mo + 1)) = (y, m, d)"
    using assms by (simp only: civil_of_day_def Let_def)
  have c: "y = ?y" "m = ?mo + 1" "d = nat (?w - month_start ?l ?mo + 1)"
    using eq by (metis prod.inject)+
  show ?thesis
    using mo unfolding c by (simp add: make_day_def valid_date_def days_in_month_def)
qed

lemma parse_iso_date_valid: "parse_iso_date s = Some (y, m, d) \<Longrightarrow> valid_date y m d"
  by (auto simp: parse_iso_date_def Let_def split: option.splits prod.splits if_splits
      list.splits)

lemma parse_iso_date_Nil [simp]: "parse_iso_date [] = None"
  by (simp add: parse_iso_date_def parse_year_def)

lemma ms_per_day_pos: "0 < ms_per_day"
  by (simp add: ms_per_day_def)

lemma formatDate_iso:
  assumes "parse_iso_date s = Some (y, m, d)" and "\<bar>utc_midnight y m d\<bar> \<le> max_time"
    and "\<bar>utc_midnight y m d + tz_offset env (utc_midnight y m d) * 60 * 1000\<bar> \<le> max_time"
  shows "formatDate env s = date_text (civil_of_day
           (make_day y m d + (tz_offset env (utc_midnight y m d) * 60 * 1000) div ms_per_day))"
proof -
  let ?t = "utc_midnight y m d"
  let ?x = "tz_offset env ?t * 60 * 1000"
  have s: "s \<noteq> []" using assms(1) by auto
  have "date_parse env s = Some ?t"
    using assms(1,2) by (simp add: date_parse_def time_clip_def utc_midnight_def)
  moreover have "(?t + ?x) div ms_per_day = make_day y m d + ?x div ms_per_day"
    using ms_per_day_pos by (simp add: utc_midnight_def add.commute [of _ ?x])
  ultimately show ?thesis
    using s assms(3) by (simp add: formatDate_def time_clip_def to_locale_date_utc_def)
qed

lemma offset_div_west: "0 \<le> off \<Longrightarrow> off < 1440 \<Longrightarrow> (off * 60 * 1000) div ms_per_day = 0"
  by (simp add: ms_per_day_def div_pos_pos_trivial)

lemma offset_div_east: "- 1440 < off \<Longrightarrow> off < 0 \<Longrightarrow> (off * 60 * 1000) div ms_per_day = - 1"
  by (simp add: ms_per_day_def div_eq_minus1 int_div_less_self)

text \<open>
  The rendering of a date-only string under any offset of less than a day: the date itself
  west of UTC, the day before east of it. The range of the time value leaves a day of room
  for the adjustment.
\<close>

lemma formatDate_small_offset:
  assumes "parse_iso_date s = Some (y, m, d)"
    and "\<bar>utc_midnight y m d\<bar> \<le> max_time - ms_per_day"
    and "\<bar>tz_offset env (utc_midnight y m d)\<bar> < 1440"
  shows "formatDate env s = date_text (civil_of_day
           (make_day y m d - (if tz_offset env (utc_midnight y m d) < 0 then 1 else 0)))"
proof -
  let ?o = "tz_offset env (utc_midnight y m d)"
  have b1: "\<bar>utc_midnight y m d\<bar> \<le> max_time"
    using assms(2) by (simp add: ms_per_day_def)
  have "\<bar>?o * 60 * 1000\<bar> \<le> ms_per_day"
    using assms(3) by (simp add: ms_per_day_def abs_mult)
  then have b2: "\<bar>utc_midnight y m d + ?o * 60 * 1000\<bar> \<le> max_time"
    using assms(2) by linarith
  show ?thesis
  proof (cases "?o < 0")
    case True
    then show ?thesis
      using formatDate_iso [OF assms(1) b1 b2] offset_div_east [of ?o] assms(3) by simp
  next
    case False
    then show ?thesis
      using formatDate_iso [OF assms(1) b1 b2] offset_div_west [of ?o] assms(3) by simp
  qed
qed

subsection \<open>Properties of the date formatter\<close>

text \<open>
  C7: where the local offset is zero or positive (UTC and the zones west of it), a
  date-only string is rendered as the date it names: the adjustment moves UTC midnight
  forward by less than a day.
\<close>

theorem formatDate_west_as_written:
  assumes "parse_iso_date s = Some (y, m, d)" and "\<bar>utc_midnight y m d\<bar> \<le> max_time"
    and "\<bar>utc_midnight y m d + tz_offset env (utc_midnight y m d) * 60 * 1000\<bar> \<le> max_time"
    and "0 \<le> tz_offset env (utc_midnight y m d)" and "tz_offset env (utc_midnight y m d) < 1440"
  shows "formatDate env s = date_text (y, m, d)"
  using formatDate_iso [OF assms(1-3)] offset_div_west [OF assms(4,5)]
    civil_of_day_make_day_eq [OF parse_iso_date_valid [OF assms(1)]]
  by simp

text \<open>
  C2: where the local offset is negative (the zones east of UTC), the adjustment moves UTC
  midnight back into the previous day, and a date-only string is rendered as the calendar
  day before the one it names. The specification requires the literal date in every time
  zone; the code meets it only west of UTC.
\<close>

theorem formatDate_east_previous_day:
  assumes "parse_iso_date s = Some (y, m, d)" and "\<bar>utc_midnight y m d\<bar> \<le> max_time"
    and "\<bar>utc_midnight y m d + tz_offset env (utc_midnight y m d) * 60 * 1000\<bar> \<le> max_time"
    and "- 1440 < tz_offset env (utc_midnight y m d)" and "tz_offset env (utc_midnight y m d) < 0"
  shows "formatDate env s = date_text (civil_of_day (make_day y m d - 1)) \<and>
         civil_of_day (make_day y m d - 1) \<noteq> (y, m, d)"
proof
  show "formatDate env s = date_text (civil_of_day (make_day y m d - 1))"
    using formatDate_iso [OF assms(1-3)] offset_div_east [OF assms(4,5)] by simp
  show "civil_of_day (make_day y m d - 1) \<noteq> (y, m, d)"
    using make_day_civil_of_day [of "make_day y m d - 1" y m d] by auto
qed

text \<open>
  C31: the calendar arithmetic is a bijection between day numbers and valid dates:
  \<open>YearFromTime\<close>, \<open>MonthFromTime\<close> and \<open>DateFromTime\<close> read a day number as the
  valid date whose \<open>MakeDay\<close> it is.
\<close>

theorem civil_of_day_iff:
  "civil_of_day D = (y, m, d) \<longleftrightarrow> valid_date y m d \<and> make_day y m d = D"
  using make_day_civil_of_day [of D y m d] civil_of_day_make_day_eq [of y m d] by auto

text \<open>
  The value of an HTML date input: a valid date string \<open>yyyy-mm-dd\<close>, the year padded to
  four digits, month and day to two.
\<close>

definition pad_digits :: "nat \<Rightarrow> nat \<Rightarrow> string" where
  "pad_digits k n = replicate (k - length (show_nat n)) (digit_char 0) @ show_nat n"

definition iso_date_string :: "int \<Rightarrow> nat \<Rightarrow> nat \<Rightarrow> string" where
  "iso_date_string y m d =
     pad_digits 4 (nat y) @ CHR ''-'' # pad_digits 2 m @ CHR ''-'' # pad_digits 2 d"

lemma length_show_nat_le: "n < 10 ^ k \<Longrightarrow> 0 < k \<Longrightarrow> length (show_nat n) \<le> k"
proof (induction n arbitrary: k rule: show_nat.induct)
  case (1 n)
  show ?case
  proof (cases "n < 10")
    case True
    then show ?thesis using "1.prems" by (simp add: show_nat_small)
  next
    case False
    then obtain k' where k: "k = Suc k'" using "1.prems" by (cases k) auto
    have "n div 10 < 10 ^ k'" using "1.prems" k by (simp add: div_less_iff_less_mult)
    moreover have "0 < k'" using False "1.prems" k by (cases k') auto
    ultimately have "length (show_nat (n div 10)) \<le> k'" using "1.IH" False by blast
    then show ?thesis using False k by (simp add: show_nat_big)
  qed
qed

lemma read_digits_append:
  "read_digits (xs @ ys) = 10 ^ length ys * read_digits xs + read_digits ys"
proof (induction ys rule: rev_induct)
  case (snoc c ys)
  have "read_digits (xs @ ys @ [c]) = 10 * read_digits (xs @ ys) + digit_val c"
    using read_digits_snoc [of "xs @ ys" c] by simp
  then show ?case using snoc.IH by (simp add: algebra_simps)
qed simp

lemma read_digits_zeros: "read_digits (replicate k (digit_char 0) @ s) = read_digits s"
proof -
  have "read_digits (replicate k (digit_char 0)) = 0"
  proof (induction k)
    case (Suc k)
    have "replicate (Suc k) (digit_char 0) = replicate k (digit_char 0) @ [digit_char 0]"
      by (simp add: replicate_append_same)
    with Suc show ?case by simp
  qed simp
  then show ?thesis by (simp add: read_digits_append)
qed

lemma pad_digits_props:
  assumes "n < 10 ^ k" and "0 < k"
  shows "length (pad_digits k n) = k \<and> list_all is_digit (pad_digits k n) \<and>
         read_digits (pad_digits k n) = n"
  using length_show_nat_le [OF assms] show_nat_digits [of _ n]
  by (auto simp: pad_digits_def read_digits_zeros list_all_iff)

lemma digits_val_pad: "n < 10 ^ k \<Longrightarrow> 0 < k \<Longrightarrow> digits_val (pad_digits k n) = Some n"
  using pad_digits_props [of n k] by (auto simp: digits_val_def)

lemma pad_digits_2: "n < 100 \<Longrightarrow> \<exists>a b. pad_digits 2 n = [a, b] \<and> digits_val [a, b] = Some n"
  using pad_digits_props [of n 2] digits_val_pad [of n 2]
  by (auto simp: numeral_2_eq_2 length_Suc_conv)

lemma days_in_month_le_31: "1 \<le> m \<Longrightarrow> m \<le> 12 \<Longrightarrow> days_in_month y m \<le> 31"
proof -
  assume "1 \<le> m" "m \<le> 12"
  then have "m = 1 \<or> m = 2 \<or> m = 3 \<or> m = 4 \<or> m = 5 \<or> m = 6 \<or> m = 7 \<or> m = 8 \<or> m = 9
      \<or> m = 10 \<or> m = 11 \<or> m = 12" by presburger
  then show ?thesis by (auto simp: days_in_month_def month_start_def month_cum_def)
qed

lemma parse_year_four:
  assumes "length p = 4" and "list_all is_digit p"
  shows "parse_year (p @ rest) = Some (int (read_digits p), rest)"
proof -
  obtain c r where cr: "p = c # r" using assms(1) by (cases p) auto
  have c: "c \<noteq> CHR ''+''" "c \<noteq> CHR ''-''"
    using assms(2) cr by (auto simp: is_digit_def)
  have "take 4 (p @ rest) = p" "drop 4 (p @ rest) = rest" using assms(1) by simp_all
  moreover have "digits_val p = Some (read_digits p)"
    using assms(2) cr by (simp add: digits_val_def)
  ultimately show ?thesis
    using c assms(1) unfolding cr parse_year_def by simp
qed

lemma parse_two_pad:
  assumes "n < 100"
  shows "parse_two (CHR ''-'' # pad_digits 2 n @ rest) = Some (n, rest)"
proof -
  obtain a b where "pad_digits 2 n = [a, b]" "digits_val [a, b] = Some n"
    using pad_digits_2 [OF assms] by blast
  then show ?thesis by (simp add: parse_two_def)
qed

text \<open>
  C32: round trip with the date input: the value a date input holds for a valid date with
  a four-digit year is parsed by \<open>new Date\<close> as a date-only form, to that date.
\<close>

theorem parse_iso_date_roundtrip:
  assumes "0 \<le> y" and "y \<le> 9999" and "valid_date y m d"
  shows "parse_iso_date (iso_date_string y m d) = Some (y, m, d)"
proof -
  have m: "m < 100" and d: "d < 100"
    using assms(3) days_in_month_le_31 [of m y] by (auto simp: valid_date_def)
  have "nat y < 10 ^ 4" using assms(2) by simp
  then have "length (pad_digits 4 (nat y)) = 4" "list_all is_digit (pad_digits 4 (nat y))"
      "read_digits (pad_digits 4 (nat y)) = nat y"
    using pad_digits_props [of "nat y" 4] by simp_all
  then have "parse_year (iso_date_string y m d) =
      Some (y, CHR ''-'' # pad_digits 2 m @ CHR ''-'' # pad_digits 2 d)"
    using assms(1) by (simp add: iso_date_string_def parse_year_four)
  moreover have "parse_two (CHR ''-'' # pad_digits 2 m @ CHR ''-'' # pad_digits 2 d) =
      Some (m, CHR ''-'' # pad_digits 2 d)"
    using parse_two_pad [OF m] by simp
  moreover have "parse_two (CHR ''-'' # pad_digits 2 d) = Some (d, [])"
    using parse_two_pad [OF d, of "[]"] by simp
  ultimately show ?thesis
    using assms(3) by (simp add: parse_iso_date_def)
qed

text \<open>
  C33: a non-empty string that is neither a date-only form nor understood by the
  implementation's own parser renders as \<open>Invalid Date\<close>, not as the empty string.
\<close>

theorem formatDate_invalid:
  assumes "s \<noteq> []" and "parse_iso_date s = None" and "parse_fallback env s = None"
  shows "formatDate env s = ''Invalid Date''"
  using assms by (simp add: formatDate_def date_parse_def to_locale_date_utc_def)

subsection \<open>Witnesses\<close>

lemma formatDate_east_previous_day_witness:
  "parse_iso_date ''2024-01-05'' = Some (2024, 1, 5) \<and>
   formatDate \<lparr>tz_offset = (\<lambda>_. - 60), parse_fallback = (\<lambda>_. None)\<rparr> ''2024-01-05'' = ''Jan 4, 2024''"
proof -
  let ?env = "\<lparr>tz_offset = (\<lambda>_. - 60), parse_fallback = (\<lambda>_. None)\<rparr>"
  have h: "parse_iso_date ''2024-01-05'' = Some (2024, 1, 5)"
      "\<bar>utc_midnight 2024 1 5\<bar> \<le> max_time"
      "\<bar>utc_midnight 2024 1 5 + tz_offset ?env (utc_midnight 2024 1 5) * 60 * 1000\<bar> \<le> max_time"
      "- 1440 < tz_offset ?env (utc_midnight 2024 1 5)" "tz_offset ?env (utc_midnight 2024 1 5) < 0"
    by (simp_all add: date_eval)
  have "formatDate ?env ''2024-01-05'' = date_text (civil_of_day (make_day 2024 1 5 - 1))"
    using formatDate_east_previous_day [OF h] by simp
  also have "make_day 2024 1 5 - 1 = make_day 2024 1 4" by (simp add: make_day_def)
  also have "civil_of_day (make_day 2024 1 4) = (2024, 1, 4)"
    by (rule civil_of_day_make_day_eq) (simp add: date_eval)
  also have "date_text (2024, 1, 4) = ''Jan 4, 2024''" by (simp add: date_eval)
  finally show ?thesis using h(1) by simp
qed

lemma formatDate_west_as_written_witness:
  "parse_iso_date ''2024-01-05'' = Some (2024, 1, 5) \<and>
   formatDate \<lparr>tz_offset = (\<lambda>_. 300), parse_fallback = (\<lambda>_. None)\<rparr> ''2024-01-05'' = ''Jan 5, 2024''"
proof -
  let ?env = "\<lparr>tz_offset = (\<lambda>_. 300), parse_fallback = (\<lambda>_. None)\<rparr>"
  have h: "parse_iso_date ''2024-01-05'' = Some (2024, 1, 5)"
      "\<bar>utc_midnight 2024 1 5\<bar> \<le> max_time"
      "\<bar>utc_midnight 2024 1 5 + tz_offset ?env (utc_midnight 2024 1 5) * 60 * 1000\<bar> \<le> max_time"
      "0 \<le> tz_offset ?env (utc_midnight 2024 1 5)" "tz_offset ?env (utc_midnight 2024 1 5) < 1440"
    by (simp_all add: date_eval)
  have "formatDate ?env ''2024-01-05'' = date_text (2024, 1, 5)"
    by (rule formatDate_west_as_written [OF h])
  also have "date_text (2024, 1, 5) = ''Jan 5, 2024''" by (simp add: date_eval)
  finally show ?thesis using h(1) by simp
qed

lemma parse_iso_date_roundtrip_witness:
  "(0::int) \<le> 2024 \<and> (2024::int) \<le> 9999 \<and> valid_date 2024 2 29 \<and>
   parse_iso_date (iso_date_string 2024 2 29) = Some (2024, 2, 29)"
proof -
  have h: "(0::int) \<le> 2024" "(2024::int) \<le> 9999" "valid_date 2024 2 29"
    by (simp_all add: date_eval)
  show ?thesis using parse_iso_date_roundtrip [OF h] h by simp
qed

lemma formatDate_invalid_witness:
  "''2023-02-29'' \<noteq> [] \<and> parse_iso_date ''2023-02-29'' = None \<and>
   parse_fallback \<lparr>tz_offset = (\<lambda>_. 0), parse_fallback = (\<lambda>_. None)\<rparr> ''2023-02-29'' = None \<and>
   formatDate \<lparr>tz_offset = (\<lambda>_. 0), parse_fallback = (\<lambda>_. None)\<rparr> ''2023-02-29'' = ''Invalid Date''"
proof -
  let ?env = "\<lparr>tz_offset = (\<lambda>_. 0::int), parse_fallback = (\<lambda>_. None)\<rparr>"
  have h: "''2023-02-29'' \<noteq> []" "parse_iso_date ''2023-02-29'' = None"
      "parse_fallback ?env ''2023-02-29'' = None"
    by (simp_all add: date_eval)
  show ?thesis using formatDate_invalid [OF h] h by simp
qed

end
