(* ===== verification/Logo_Resolver.thy ===== *)
theory Logo_Resolver
  imports Paystub_Prelude
begin

text \<open>
  The logo resolver (src/src/PaystubGenerator.js, lines 59 and 63--79): a one-shot effect
  that loads \<open>LOGO_URL\<close> into an \<open>Image\<close> with \<open>crossOrigin = "anonymous"\<close>. On
  \<open>load\<close> it draws the image on a canvas of the image's size and stores
  \<open>canvas.toDataURL("image/png")\<close> in the state \<open>logoDataUrl\<close>; on \<open>error\<close> it logs
  \<open>Failed to load the logo\<close> and stores the empty string. The state starts as the empty
  string. The image fires exactly one of the two events; the browser's decoding and PNG
  encoding are outside the model: the load event carries the image's natural size and the
  base64 PNG encoding of its pixels.
\<close>

definition LOGO_URL :: js_string where
  "LOGO_URL = ''/images/evmos-dao-logo-white.png''"

text \<open>
  \<open>HTMLCanvasElement.toDataURL("image/png")\<close>: a canvas with no pixels (zero width or
  height) gives \<open>data:,\<close>; otherwise a PNG data URL.
\<close>

definition canvas_to_data_url :: "nat \<Rightarrow> nat \<Rightarrow> string \<Rightarrow> js_string" where
  "canvas_to_data_url w h png =
     (if w = 0 \<or> h = 0 then ''data:,'' else ''data:image/png;base64,'' @ png)"

datatype img_event = ImgLoad nat nat string | ImgError

text \<open>The initial value of \<open>useState("")\<close> for \<open>logoDataUrl\<close>.\<close>

definition initial_logo :: js_string where
  "initial_logo = []"

text \<open>
  The two handlers: the new \<open>logoDataUrl\<close> and the lines written to the console.
\<close>

fun logo_handler :: "img_event \<Rightarrow> js_string \<times> string list" where
  "logo_handler (ImgLoad w h png) = (canvas_to_data_url w h png, [])"
| "logo_handler ImgError = ([], [''Failed to load the logo''])"

subsection \<open>Lemmas\<close>

lemma canvas_to_data_url_prefix: "take 5 (canvas_to_data_url w h png) = ''data:''"
  by (simp add: canvas_to_data_url_def)

lemma canvas_to_data_url_not_Nil [simp]: "canvas_to_data_url w h png \<noteq> []"
  by (simp add: canvas_to_data_url_def)

definition data_url_or_empty :: "js_string \<Rightarrow> bool" where
  "data_url_or_empty u \<longleftrightarrow> u = [] \<or> take 5 u = ''data:''"

lemma logo_handler_data_url:
  "data_url_or_empty initial_logo \<and> data_url_or_empty (fst (logo_handler ev))"
  by (cases ev) (simp_all add: data_url_or_empty_def initial_logo_def canvas_to_data_url_prefix)

end
