(* ===== verification/Layout.thy ===== *)
theory Layout
  imports Record_Model Currency_Format Date_Format Logo_Resolver
begin

text \<open>
  The layout renderer: the JSX that \<open>PaystubGenerator\<close> returns
  (src/src/PaystubGenerator.js, lines 163--468), as two views. The form
  (lines 171--278) shows one controlled input per field and the export button; the paystub
  (lines 280--468, the box that \<open>paystubRef\<close> points at) shows the header band with the
  logo or its placeholder, the name and the dates, the earnings table and the footer. The
  views keep the text each element shows, in document order; colours, sizes and spacing
  (the Chakra props and inline styles) are left out, except the placeholder's fixed label and
  colour. Rendering is a function of the record, the logo state and the environment the
  date formatter reads.
\<close>

subsection \<open>The form\<close>

datatype input_type = TextInput | DateInput | NumberInput

record form_input =
  in_name :: js_string
  in_type :: input_type
  in_placeholder :: js_string
  in_value :: js_string

record form_view =
  fv_heading :: js_string
  fv_inputs :: "form_input list"
  fv_button :: js_string

text \<open>The \<open>type\<close> attribute of each input (absent, hence text, for name, hash and URL).\<close>

fun input_type_of :: "field \<Rightarrow> input_type" where
  "input_type_of PayPeriodStart = DateInput"
| "input_type_of PayPeriodEnd = DateInput"
| "input_type_of PayDate = DateInput"
| "input_type_of GrossPay = NumberInput"
| "input_type_of YtdGross = NumberInput"
| "input_type_of _ = TextInput"

fun placeholder_of :: "field \<Rightarrow> js_string" where
  "placeholder_of Name = ''Name''"
| "placeholder_of PayPeriodStart = ''Pay Period Start''"
| "placeholder_of PayPeriodEnd = ''Pay Period End''"
| "placeholder_of PayDate = ''Pay Date''"
| "placeholder_of GrossPay = ''Gross Pay''"
| "placeholder_of YtdGross = ''YTD Gross''"
| "placeholder_of TransactionHash = ''Transaction Hash''"
| "placeholder_of SafeUrl = ''Safe URL''"

definition render_input :: "paystub \<Rightarrow> field \<Rightarrow> form_input" where
  "render_input d f = \<lparr>in_name = input_name f, in_type = input_type_of f,
     in_placeholder = placeholder_of f, in_value = get_field f d\<rparr>"

text \<open>The inputs appear in the order of \<open>all_fields\<close> (lines 177--268).\<close>

definition render_form :: "paystub \<Rightarrow> form_view" where
  "render_form d = \<lparr>fv_heading = ''Evmos DAO Paystub Generator'',
     fv_inputs = map (render_input d) all_fields, fv_button = ''Generate Paystub''\<rparr>"

subsection \<open>The paystub\<close>

text \<open>The logo slot: the image when \<open>logoDataUrl\<close> is truthy, else the placeholder box.\<close>

datatype logo_view = LogoImage js_string js_string | LogoPlaceholder js_string js_string

definition render_logo :: "js_string \<Rightarrow> logo_view" where
  "render_logo url =
     (if url \<noteq> [] then LogoImage url ''Evmos DAO Logo'' else LogoPlaceholder ''EVMOS'' ''#ff5a5a'')"

text \<open>\<open>x || "N/A"\<close> on a string: the empty string is the only falsy one.\<close>

definition or_na :: "js_string \<Rightarrow> js_string" where
  "or_na s = (if s = [] then ''N/A'' else s)"

record stub_view =
  sv_logo :: logo_view
  sv_org :: js_string
  sv_contact :: js_string
  sv_title :: js_string
  sv_name :: js_string
  sv_pay_date :: js_string
  sv_pay_period :: js_string
  sv_table_head :: "js_string list"
  sv_table_body :: "js_string list list"
  sv_table_foot :: "js_string list"
  sv_tx_hash :: js_string
  sv_safe_url :: js_string

text \<open>
  The pay period line is \<open>{formatDate(start)} -{" "}{formatDate(end)}\<close>: the two dates
  joined by a space, a hyphen and a space.
\<close>

definition render_paystub :: "date_env \<Rightarrow> js_string \<Rightarrow> paystub \<Rightarrow> stub_view" where
  "render_paystub env logo d = \<lparr>
     sv_logo = render_logo logo,
     sv_org = ''Evmos DAO'', sv_contact = ''info@evmosdao.org'',
     sv_title = ''Earnings Statement'',
     sv_name = or_na (name d),
     sv_pay_date = formatDate env (payDate d),
     sv_pay_period = formatDate env (payPeriodStart d) @ '' - '' @ formatDate env (payPeriodEnd d),
     sv_table_head = [''Earnings'', ''Amount'', ''YTD''],
     sv_table_body = [[''Regular Pay'', formatCurrency (grossPay d), formatCurrency (ytdGross d)]],
     sv_table_foot = [''Total'', formatCurrency (grossPay d), formatCurrency (ytdGross d)],
     sv_tx_hash = or_na (transactionHash d),
     sv_safe_url = or_na (safeUrl d)\<rparr>"

text \<open>The text of the three fields the footer and the identity block print verbatim.\<close>

fun shown_text :: "stub_view \<Rightarrow> field \<Rightarrow> js_string option" where
  "shown_text v Name = Some (sv_name v)"
| "shown_text v TransactionHash = Some (sv_tx_hash v)"
| "shown_text v SafeUrl = Some (sv_safe_url v)"
| "shown_text v _ = None"

text \<open>The record of the end-to-end scenario of the specification.\<close>

definition jane_doe :: paystub where
  "jane_doe = \<lparr>name = ''Jane Doe'', payPeriodStart = ''2024-01-01'', payPeriodEnd = ''2024-01-15'',
     payDate = ''2024-01-16'', grossPay = ''2500'', ytdGross = ''2500'', transactionHash = ''0xabc'',
     safeUrl = ''https://safe.example/tx/1''\<rparr>"

subsection \<open>Lemmas of the renderer\<close>

lemma length_all_fields [simp]: "length all_fields = 8"
  by (simp add: all_fields_def)

lemma length_render_form [simp]: "length (fv_inputs (render_form d)) = 8"
  by (simp add: render_form_def)

lemma nth_render_form:
  "k < 8 \<Longrightarrow> fv_inputs (render_form d) ! k = render_input d (all_fields ! k)"
  by (simp add: render_form_def)

lemma all_fields_distinct: "distinct all_fields"
  by (simp add: all_fields_def)

lemma render_input_set_field:
  "render_input (set_field f v d) g =
     (if g = f then (render_input d g)\<lparr>in_value := v\<rparr> else render_input d g)"
  by (simp add: render_input_def)

lemma sv_logo_render [simp]: "sv_logo (render_paystub env u d) = render_logo u"
  by (simp add: render_paystub_def)

lemma formatDate_Nil [simp]: "formatDate env [] = []"
  by (simp add: formatDate_def)

lemma formatCurrency_Nil: "formatCurrency [] = ''$0.00''"
  by (simp add: currency_eval)

lemma formatDate_const_offset:
  assumes "tz_offset env = (\<lambda>_. off)" and "\<bar>off\<bar> < 1440"
    and "parse_iso_date s = Some (y, m, d)" and "\<bar>utc_midnight y m d\<bar> \<le> max_time - ms_per_day"
  shows "formatDate env s = date_text (civil_of_day (make_day y m d - (if off < 0 then 1 else 0)))"
  using formatDate_small_offset [of s y m d env] assms by simp

lemma jane_doe_dates:
  "parse_iso_date ''2024-01-01'' = Some (2024, 1, 1)"
  "parse_iso_date ''2024-01-15'' = Some (2024, 1, 15)"
  "parse_iso_date ''2024-01-16'' = Some (2024, 1, 16)"
  "\<bar>utc_midnight 2024 1 1\<bar> \<le> max_time - ms_per_day"
  "\<bar>utc_midnight 2024 1 15\<bar> \<le> max_time - ms_per_day"
  "\<bar>utc_midnight 2024 1 16\<bar> \<le> max_time - ms_per_day"
  by (simp_all add: date_eval)

lemma jane_doe_days:
  "civil_of_day (make_day 2024 1 1) = (2024, 1, 1)"
  "civil_of_day (make_day 2024 1 15) = (2024, 1, 15)"
  "civil_of_day (make_day 2024 1 16) = (2024, 1, 16)"
  "civil_of_day (make_day 2024 1 1 - 1) = (2023, 12, 31)"
  "civil_of_day (make_day 2024 1 15 - 1) = (2024, 1, 14)"
  "civil_of_day (make_day 2024 1 16 - 1) = (2024, 1, 15)"
proof -
  have e: "make_day 2024 1 1 - 1 = make_day 2023 12 31" "make_day 2024 1 15 - 1 = make_day 2024 1 14"
      "make_day 2024 1 16 - 1 = make_day 2024 1 15"
    by (simp_all add: date_eval)
  show "civil_of_day (make_day 2024 1 1) = (2024, 1, 1)"
      "civil_of_day (make_day 2024 1 15) = (2024, 1, 15)"
      "civil_of_day (make_day 2024 1 16) = (2024, 1, 16)"
      "civil_of_day (make_day 2024 1 1 - 1) = (2023, 12, 31)"
      "civil_of_day (make_day 2024 1 15 - 1) = (2024, 1, 14)"
      "civil_of_day (make_day 2024 1 16 - 1) = (2024, 1, 15)"
    unfolding e by (rule civil_of_day_make_day_eq, simp add: date_eval)+
qed

lemma jane_doe_texts:
  "date_text (2024, 1, 1) = ''Jan 1, 2024''" "date_text (2024, 1, 15) = ''Jan 15, 2024''"
  "date_text (2024, 1, 16) = ''Jan 16, 2024''" "date_text (2023, 12, 31) = ''Dec 31, 2023''"
  "date_text (2024, 1, 14) = ''Jan 14, 2024''"
  by (simp_all add: date_eval)

lemma jane_doe_amounts: "formatCurrency ''2500'' = ''$2,500.00''"
  by (simp add: currency_eval)

subsection \<open>Properties of the renderer\<close>

text \<open>
  C21: the form is a faithful editor of the record: the input at position \<open>k\<close> shows
  the field it edits, and an edit reported by it changes the value shown by that input
  and by no other.
\<close>

theorem form_edit_shows_value:
  assumes "k < length (fv_inputs (render_form d))"
  shows "fv_inputs (render_form (handleInputChange (in_name (fv_inputs (render_form d) ! k)) v d)) =
           (fv_inputs (render_form d))[k := (fv_inputs (render_form d) ! k)\<lparr>in_value := v\<rparr>]"
proof -
  let ?f = "all_fields ! k"
  have k: "k < 8" using assms by simp
  have "in_name (fv_inputs (render_form d) ! k) = input_name ?f"
    using k by (simp add: nth_render_form render_input_def)
  then have "handleInputChange (in_name (fv_inputs (render_form d) ! k)) v d = set_field ?f v d"
    by simp
  moreover have "map (render_input (set_field ?f v d)) all_fields =
      (map (render_input d) all_fields)[k := (render_input d ?f)\<lparr>in_value := v\<rparr>]"
  proof (rule nth_equalityI)
    fix i assume "i < length (map (render_input (set_field ?f v d)) all_fields)"
    then have i: "i < 8" by simp
    have "all_fields ! i = ?f \<longleftrightarrow> i = k"
      using i k all_fields_distinct by (simp add: nth_eq_iff_index_eq)
    then show "map (render_input (set_field ?f v d)) all_fields ! i =
        (map (render_input d) all_fields)[k := (render_input d ?f)\<lparr>in_value := v\<rparr>] ! i"
      using i k by (simp add: nth_list_update render_input_set_field)
  qed simp
  ultimately show ?thesis
    using k by (simp add: render_form_def)
qed

text \<open>
  C22: the earnings table has exactly one line item, and its total row restates the line
  item's two amounts, for every record.
\<close>

theorem render_table_total:
  "length (sv_table_body (render_paystub env u d)) = 1 \<and>
   tl (sv_table_foot (render_paystub env u d)) = tl (hd (sv_table_body (render_paystub env u d)))"
  by (simp add: render_paystub_def)

text \<open>
  C23: the name, the transaction hash and the Safe URL are never shown blank: a blank field
  shows \<open>N/A\<close>, any other value is shown verbatim; the other fields are not printed as text.
\<close>

theorem render_text_fields:
  "shown_text (render_paystub env u d) f = Some t \<Longrightarrow>
     f \<in> {Name, TransactionHash, SafeUrl} \<and> t \<noteq> [] \<and>
     (get_field f d = [] \<longrightarrow> t = ''N/A'') \<and> (get_field f d \<noteq> [] \<longrightarrow> t = get_field f d)"
  by (cases f) (auto simp: render_paystub_def or_na_def split: if_splits)

text \<open>
  C24: the logo slot under each state of the logo resolver: the placeholder with its fixed
  label and colour while the image is pending and after a load error; the PNG data URL after
  a load; and, for an image that decodes with no pixels, an image element whose source is
  the empty data URL \<open>data:,\<close> instead of the placeholder.
\<close>

theorem render_logo_resolver:
  "sv_logo (render_paystub env initial_logo d) = LogoPlaceholder ''EVMOS'' ''#ff5a5a'' \<and>
   sv_logo (render_paystub env (fst (logo_handler ImgError)) d) = LogoPlaceholder ''EVMOS'' ''#ff5a5a'' \<and>
   sv_logo (render_paystub env (fst (logo_handler (ImgLoad w h png))) d) =
     (if w = 0 \<or> h = 0 then LogoImage ''data:,'' ''Evmos DAO Logo''
      else LogoImage (''data:image/png;base64,'' @ png) ''Evmos DAO Logo'')"
  by (simp add: render_logo_def initial_logo_def canvas_to_data_url_def)

text \<open>
  C26: the renderer never fails on missing data: for every record, a blank pay date shows
  the empty string, blank pay period dates show the bare separator, and a blank amount shows
  \<open>$0.00\<close> in its column of both the line item and the total row.
\<close>

theorem render_blank_fields:
  "(payDate d = [] \<longrightarrow> sv_pay_date (render_paystub env u d) = []) \<and>
   (payPeriodStart d = [] \<and> payPeriodEnd d = [] \<longrightarrow> sv_pay_period (render_paystub env u d) = '' - '') \<and>
   (grossPay d = [] \<longrightarrow> hd (sv_table_body (render_paystub env u d)) ! 1 = ''$0.00'' \<and>
      sv_table_foot (render_paystub env u d) ! 1 = ''$0.00'') \<and>
   (ytdGross d = [] \<longrightarrow> hd (sv_table_body (render_paystub env u d)) ! 2 = ''$0.00'' \<and>
      sv_table_foot (render_paystub env u d) ! 2 = ''$0.00'')"
  by (simp add: render_paystub_def formatCurrency_Nil)

text \<open>
  C6: the end-to-end scenario of the specification, in UTC and every zone west of it
  (offset from 0 to 1439 minutes): the earnings row and the total show \<open>$2,500.00\<close> twice
  and the pay period reads \<open>Jan 1, 2024 - Jan 15, 2024\<close>.
\<close>

theorem render_jane_doe_west:
  assumes "tz_offset env = (\<lambda>_. off)" and "0 \<le> off" and "off < 1440"
  shows "sv_name (render_paystub env u jane_doe) = ''Jane Doe'' \<and>
    sv_pay_date (render_paystub env u jane_doe) = ''Jan 16, 2024'' \<and>
    sv_pay_period (render_paystub env u jane_doe) = ''Jan 1, 2024 - Jan 15, 2024'' \<and>
    sv_table_body (render_paystub env u jane_doe) = [[''Regular Pay'', ''$2,500.00'', ''$2,500.00'']] \<and>
    sv_table_foot (render_paystub env u jane_doe) = [''Total'', ''$2,500.00'', ''$2,500.00'']"
proof -
  have o: "\<bar>off\<bar> < 1440" "\<not> off < 0" using assms(2,3) by simp_all
  show ?thesis
    using formatDate_const_offset [OF assms(1) o(1) jane_doe_dates(1) jane_doe_dates(4)]
      formatDate_const_offset [OF assms(1) o(1) jane_doe_dates(2) jane_doe_dates(5)]
      formatDate_const_offset [OF assms(1) o(1) jane_doe_dates(3) jane_doe_dates(6)] o(2)
      jane_doe_days(1-3) jane_doe_texts(1-3)
    by (simp add: render_paystub_def jane_doe_def or_na_def jane_doe_amounts)
qed

text \<open>
  C1: the same scenario in every zone east of UTC (offset from -1439 to -1 minutes): every
  date of the paystub is shown one day early, and the pay period reads
  \<open>Dec 31, 2023 - Jan 14, 2024\<close>, not the line the specification requires.
\<close>

theorem render_jane_doe_east:
  assumes "tz_offset env = (\<lambda>_. off)" and "- 1440 < off" and "off < 0"
  shows "sv_pay_date (render_paystub env u jane_doe) = ''Jan 15, 2024'' \<and>
    sv_pay_period (render_paystub env u jane_doe) = ''Dec 31, 2023 - Jan 14, 2024'' \<and>
    sv_pay_period (render_paystub env u jane_doe) \<noteq> ''Jan 1, 2024 - Jan 15, 2024''"
proof -
  have o: "\<bar>off\<bar> < 1440" using assms(2,3) by simp
  show ?thesis
    using formatDate_const_offset [OF assms(1) o jane_doe_dates(1) jane_doe_dates(4)]
      formatDate_const_offset [OF assms(1) o jane_doe_dates(2) jane_doe_dates(5)]
      formatDate_const_offset [OF assms(1) o jane_doe_dates(3) jane_doe_dates(6)] assms(3)
      jane_doe_days(4-6) jane_doe_texts(2,4,5)
    by (simp add: render_paystub_def jane_doe_def)
qed

subsection \<open>Witnesses\<close>

lemma form_edit_shows_value_witness:
  "0 < length (fv_inputs (render_form initial_paystub)) \<and>
   fv_inputs (render_form (handleInputChange (in_name (fv_inputs (render_form initial_paystub) ! 0))
     ''Jane Doe'' initial_paystub)) =
   (fv_inputs (render_form initial_paystub))[0 := (fv_inputs (render_form initial_paystub) ! 0)
     \<lparr>in_value := ''Jane Doe''\<rparr>]"
  using form_edit_shows_value [of 0 initial_paystub "''Jane Doe''"] by simp

lemma render_text_fields_witness:
  "shown_text (render_paystub \<lparr>tz_offset = (\<lambda>_. 0), parse_fallback = (\<lambda>_. None)\<rparr> [] jane_doe)
     TransactionHash = Some ''0xabc'' \<and> TransactionHash \<in> {Name, TransactionHash, SafeUrl} \<and>
   ''0xabc'' \<noteq> [] \<and> get_field TransactionHash jane_doe = ''0xabc''"
proof -
  have h: "shown_text (render_paystub \<lparr>tz_offset = (\<lambda>_. 0), parse_fallback = (\<lambda>_. None)\<rparr> [] jane_doe)
     TransactionHash = Some ''0xabc''"
    by (simp add: render_paystub_def jane_doe_def or_na_def)
  show ?thesis using render_text_fields [OF h] h by (simp add: jane_doe_def)
qed

lemma render_blank_fields_witness:
  "payDate initial_paystub = [] \<and> payPeriodStart initial_paystub = [] \<and>
   payPeriodEnd initial_paystub = [] \<and> grossPay initial_paystub = [] \<and> ytdGross initial_paystub = [] \<and>
   sv_pay_period (render_paystub \<lparr>tz_offset = (\<lambda>_. 0), parse_fallback = (\<lambda>_. None)\<rparr> [] initial_paystub) = '' - '' \<and>
   sv_table_foot (render_paystub \<lparr>tz_offset = (\<lambda>_. 0), parse_fallback = (\<lambda>_. None)\<rparr> [] initial_paystub) ! 2 = ''$0.00''"
proof -
  have h: "payDate initial_paystub = []" "payPeriodStart initial_paystub = []"
      "payPeriodEnd initial_paystub = []" "grossPay initial_paystub = []" "ytdGross initial_paystub = []"
    by (simp_all add: initial_paystub_def)
  show ?thesis
    using render_blank_fields [of initial_paystub "\<lparr>tz_offset = (\<lambda>_. 0), parse_fallback = (\<lambda>_. None)\<rparr>" "[]"] h
    by simp
qed

lemma render_jane_doe_west_witness:
  "tz_offset \<lparr>tz_offset = (\<lambda>_. 300), parse_fallback = (\<lambda>_. None)\<rparr> = (\<lambda>_. 300) \<and>
   (0::int) \<le> 300 \<and> (300::int) < 1440 \<and>
   sv_pay_period (render_paystub \<lparr>tz_offset = (\<lambda>_. 300), parse_fallback = (\<lambda>_. None)\<rparr> [] jane_doe) =
     ''Jan 1, 2024 - Jan 15, 2024''"
  using render_jane_doe_west [of "\<lparr>tz_offset = (\<lambda>_. 300), parse_fallback = (\<lambda>_. None)\<rparr>" 300 "[]"]
  by simp

lemma render_jane_doe_east_witness:
  "tz_offset \<lparr>tz_offset = (\<lambda>_. - 60), parse_fallback = (\<lambda>_. None)\<rparr> = (\<lambda>_. - 60) \<and>
   - 1440 < (- 60::int) \<and> (- 60::int) < 0 \<and>
   sv_pay_period (render_paystub \<lparr>tz_offset = (\<lambda>_. - 60), parse_fallback = (\<lambda>_. None)\<rparr> [] jane_doe) =
     ''Dec 31, 2023 - Jan 14, 2024''"
  using render_jane_doe_east [of "\<lparr>tz_offset = (\<lambda>_. - 60), parse_fallback = (\<lambda>_. None)\<rparr>" "- 60" "[]"]
  by simp

end
