(* ===== verification/Export.thy ===== *)
theory Export
  imports Logo_Resolver Layout
begin

text \<open>
  The export pipeline \<open>generatePDF\<close> (src/src/PaystubGenerator.js, lines 111--161). It
  checks that \<open>paystubRef.current\<close> exists, awaits \<open>html2canvas\<close> on the paystub box, reads
  the capture as a PNG data URL, builds an A4 portrait jsPDF document in points, adds the image
  at the origin with the page width and the proportional height, saves it under a fixed name
  and shows a success toast; any exception in the \<open>try\<close> block is logged and shown as an
  error toast with the exception's message. The libraries are the environment: the capture
  (a function of the options and of the view, resolving to a canvas or rejecting), the error
  \<open>toDataURL\<close> throws on a tainted canvas, and the exceptions \<open>addImage\<close> and \<open>save\<close>
  may throw. The observable behaviour is the list of effects the call produces, in order:
  toasts, downloads and console lines. JavaScript numbers of the layout arithmetic are exact
  rationals here (the double rounding of \<open>ch * 595.28 / cw\<close> is not modelled), with
  \<open>Infinity\<close> and \<open>NaN\<close> for a division by zero.
\<close>

subsection \<open>Values of the pipeline\<close>

datatype js_num = Num rat | PosInf | NaN

text \<open>\<open>a * b / c\<close> for a non-negative numerator: \<open>x / 0\<close> is \<open>Infinity\<close>, \<open>0 / 0\<close> is \<open>NaN\<close>.\<close>

definition js_mul_div :: "rat \<Rightarrow> rat \<Rightarrow> rat \<Rightarrow> js_num" where
  "js_mul_div a b c = (if c = 0 then (if a * b = 0 then NaN else PosInf) else Num (a * b / c))"

text \<open>A thrown value: an \<open>Error\<close> with its message, or a value without a \<open>message\<close>.\<close>

datatype js_error = ErrorObj js_string | ThrownValue

definition error_message :: "js_error \<Rightarrow> js_string" where
  "error_message e = (case e of ErrorObj m \<Rightarrow> m | ThrownValue \<Rightarrow> ''undefined'')"

record capture_options =
  co_scale :: nat
  co_useCORS :: bool
  co_allowTaint :: bool

definition capture_options :: capture_options where
  "capture_options = \<lparr>co_scale = 2, co_useCORS = True, co_allowTaint = True\<rparr>"

text \<open>The canvas \<open>html2canvas\<close> resolves to: its size in pixels, its pixels as PNG, and
  whether a cross-origin image drawn without CORS has tainted it.\<close>

record capture_canvas =
  cv_width :: nat
  cv_height :: nat
  cv_png :: string
  cv_tainted :: bool

record pdf_image =
  img_data :: js_string
  img_format :: js_string
  img_x :: rat
  img_y :: rat
  img_w :: rat
  img_h :: js_num

record pdf_doc =
  pdf_orientation :: js_string
  pdf_unit :: js_string
  pdf_format :: js_string
  pdf_page_width :: rat
  pdf_page_height :: rat
  pdf_images :: "pdf_image list"

text \<open>\<open>new jsPDF({orientation: "portrait", unit: "pt", format: "a4"})\<close>: an A4 page of
  595.28 by 841.89 points (jsPDF's page format table) and no content.\<close>

definition new_jsPDF :: pdf_doc where
  "new_jsPDF = \<lparr>pdf_orientation = ''portrait'', pdf_unit = ''pt'', pdf_format = ''a4'',
     pdf_page_width = 59528 / 100, pdf_page_height = 84189 / 100, pdf_images = []\<rparr>"

datatype toast_status = StatusSuccess | StatusError

record toast =
  t_title :: js_string
  t_description :: js_string
  t_status :: toast_status
  t_duration :: nat
  t_closable :: bool

datatype effect = ShowToast toast | Download js_string pdf_doc | ConsoleError "js_string list"

record export_env =
  rasterize :: "capture_options \<Rightarrow> stub_view \<Rightarrow> js_error + capture_canvas"
  taint_error :: js_error
  add_image_error :: "pdf_doc \<Rightarrow> pdf_image \<Rightarrow> js_error option"
  save_error :: "pdf_doc \<Rightarrow> js_string \<Rightarrow> js_error option"

subsection \<open>The steps of \<open>generatePDF\<close>\<close>

definition missing_toast :: toast where
  "missing_toast = \<lparr>t_title = ''Error'', t_description = ''Could not find paystub content.'',
     t_status = StatusError, t_duration = 3000, t_closable = True\<rparr>"

definition success_toast :: toast where
  "success_toast = \<lparr>t_title = ''Success'', t_description = ''Paystub PDF generated successfully.'',
     t_status = StatusSuccess, t_duration = 3000, t_closable = True\<rparr>"

definition failure_toast :: "js_error \<Rightarrow> toast" where
  "failure_toast e = \<lparr>t_title = ''Error'', t_description = ''Failed to generate PDF: '' @ error_message e,
     t_status = StatusError, t_duration = 5000, t_closable = True\<rparr>"

text \<open>The \<open>catch\<close> block.\<close>

definition export_failed :: "js_error \<Rightarrow> effect list" where
  "export_failed e = [ConsoleError [''Error generating PDF:'', error_message e], ShowToast (failure_toast e)]"

text \<open>\<open>canvas.toDataURL("image/png")\<close> on the capture: it throws on a tainted canvas.\<close>

definition capture_data_url :: "export_env \<Rightarrow> capture_canvas \<Rightarrow> js_error + js_string" where
  "capture_data_url env c =
     (if cv_tainted c then Inl (taint_error env)
      else Inr (canvas_to_data_url (cv_width c) (cv_height c) (cv_png c)))"

text \<open>The image placement: full page width, height \<open>canvas.height * imgWidth / canvas.width\<close>.\<close>

definition place_image :: "pdf_doc \<Rightarrow> capture_canvas \<Rightarrow> js_string \<Rightarrow> pdf_image" where
  "place_image pdf c imgData = \<lparr>img_data = imgData, img_format = ''PNG'', img_x = 0, img_y = 0,
     img_w = pdf_page_width pdf,
     img_h = js_mul_div (of_nat (cv_height c)) (pdf_page_width pdf) (of_nat (cv_width c))\<rparr>"

definition export_file_name :: js_string where
  "export_file_name = ''evmos-dao-paystub.pdf''"

text \<open>The part of the \<open>try\<close> block after the \<open>await\<close>, given what the capture settled to.\<close>

definition generatePDF_finish :: "export_env \<Rightarrow> js_error + capture_canvas \<Rightarrow> effect list" where
  "generatePDF_finish env cap =
     (case cap of
        Inl e \<Rightarrow> export_failed e
      | Inr c \<Rightarrow>
          (case capture_data_url env c of
             Inl e \<Rightarrow> export_failed e
           | Inr imgData \<Rightarrow>
               (let pdf = new_jsPDF; img = place_image pdf c imgData in
                case add_image_error env pdf img of
                  Some e \<Rightarrow> export_failed e
                | None \<Rightarrow>
                    (let pdf' = pdf\<lparr>pdf_images := pdf_images pdf @ [img]\<rparr> in
                     case save_error env pdf' export_file_name of
                       Some e \<Rightarrow> export_failed e
                     | None \<Rightarrow> [Download export_file_name pdf', ShowToast success_toast]))))"

text \<open>
  The synchronous part of the call, up to the \<open>await\<close>: the guard on
  \<open>paystubRef.current\<close> either ends the call with the error toast or hands the box's
  view to \<open>html2canvas\<close>.
\<close>

definition generatePDF_start :: "bool \<Rightarrow> stub_view \<Rightarrow> effect list + stub_view" where
  "generatePDF_start ref_set v = (if \<not> ref_set then Inl [ShowToast missing_toast] else Inr v)"

text \<open>The whole call, for a view \<open>v\<close> and whether \<open>paystubRef.current\<close> is set.\<close>

definition generatePDF :: "export_env \<Rightarrow> bool \<Rightarrow> stub_view \<Rightarrow> effect list" where
  "generatePDF env ref_set v =
     (case generatePDF_start ref_set v of
        Inl effs \<Rightarrow> effs
      | Inr el \<Rightarrow> generatePDF_finish env (rasterize env capture_options el))"

subsection \<open>Observations of an effect list\<close>

fun toasts :: "effect list \<Rightarrow> toast list" where
  "toasts [] = []"
| "toasts (ShowToast t # es) = t # toasts es"
| "toasts (_ # es) = toasts es"

fun downloads :: "effect list \<Rightarrow> (js_string \<times> pdf_doc) list" where
  "downloads [] = []"
| "downloads (Download f p # es) = (f, p) # downloads es"
| "downloads (_ # es) = downloads es"

subsection \<open>Lemmas of the pipeline\<close>

lemma toasts_append [simp]: "toasts (xs @ ys) = toasts xs @ toasts ys"
  by (induction xs rule: toasts.induct) simp_all

lemma downloads_append [simp]: "downloads (xs @ ys) = downloads xs @ downloads ys"
  by (induction xs rule: downloads.induct) simp_all

lemma export_failed_obs [simp]:
  "toasts (export_failed e) = [failure_toast e]" "downloads (export_failed e) = []"
  by (simp_all add: export_failed_def)

lemma toast_distinct [simp]:
  "failure_toast e \<noteq> success_toast" "missing_toast \<noteq> success_toast" "missing_toast \<noteq> failure_toast e"
  by (simp_all add: failure_toast_def success_toast_def missing_toast_def)

text \<open>After the capture settles the call ends in one of two ways: the download followed by
  the success toast, or the \<open>catch\<close> block for one error.\<close>

lemma generatePDF_finish_cases:
  "(\<exists>pdf. generatePDF_finish env cap = [Download export_file_name pdf, ShowToast success_toast]) \<or>
   (\<exists>e. generatePDF_finish env cap = export_failed e)"
  by (auto simp: generatePDF_finish_def Let_def split: sum.split option.split)

lemma generatePDF_finish_obs:
  "length (toasts (generatePDF_finish env cap)) = 1 \<and>
   length (downloads (generatePDF_finish env cap)) \<le> 1 \<and>
   (downloads (generatePDF_finish env cap) \<noteq> [] \<longleftrightarrow> toasts (generatePDF_finish env cap) = [success_toast])"
  using generatePDF_finish_cases [of env cap] by auto

lemma generatePDF_start_ref [simp]: "generatePDF_start True v = Inr v"
  by (simp add: generatePDF_start_def)

lemma generatePDF_mounted: "generatePDF env True v = generatePDF_finish env (rasterize env capture_options v)"
  by (simp add: generatePDF_def generatePDF_start_def)

subsection \<open>Properties of the pipeline\<close>

text \<open>
  C4: every call reports exactly one outcome, and the file is produced atomically: at most
  one download, and a download happens exactly when the outcome is the success toast.
\<close>

theorem generatePDF_atomic:
  "length (toasts (generatePDF env m v)) = 1 \<and> length (downloads (generatePDF env m v)) \<le> 1 \<and>
   (downloads (generatePDF env m v) \<noteq> [] \<longleftrightarrow> toasts (generatePDF env m v) = [success_toast])"
  using generatePDF_finish_obs [of env] by (simp add: generatePDF_def generatePDF_start_def)

text \<open>
  C17: without a mounted paystub box the call shows the error toast \<open>Could not find
  paystub content.\<close> for 3 seconds, and neither captures nor writes a file.
\<close>

theorem generatePDF_unmounted:
  "generatePDF env False v = [ShowToast missing_toast] \<and> downloads (generatePDF env False v) = [] \<and>
   t_status missing_toast = StatusError \<and> t_duration missing_toast = 3000"
  by (simp add: generatePDF_def generatePDF_start_def missing_toast_def)

text \<open>
  C14: the success path: a clean capture of \<open>w\<close> by \<open>h\<close> pixels gives one download named
  \<open>evmos-dao-paystub.pdf\<close> of an A4 portrait document in points whose only content is the
  PNG at the origin, the page's width wide and \<open>h * 595.28 / w\<close> high, then the success toast.
\<close>

theorem generatePDF_success:
  assumes "rasterize env capture_options v = Inr c" and "\<not> cv_tainted c"
    and "0 < cv_width c" and "0 < cv_height c"
    and "add_image_error env = (\<lambda>_ _. None)" and "save_error env = (\<lambda>_ _. None)"
  shows "generatePDF env True v =
    [Download ''evmos-dao-paystub.pdf''
       \<lparr>pdf_orientation = ''portrait'', pdf_unit = ''pt'', pdf_format = ''a4'',
        pdf_page_width = 59528 / 100, pdf_page_height = 84189 / 100,
        pdf_images = [\<lparr>img_data = ''data:image/png;base64,'' @ cv_png c, img_format = ''PNG'',
          img_x = 0, img_y = 0, img_w = 59528 / 100,
          img_h = Num (of_nat (cv_height c) * (59528 / 100) / of_nat (cv_width c))\<rparr>]\<rparr>,
     ShowToast success_toast]"
  using assms
  by (simp add: generatePDF_def generatePDF_start_def generatePDF_finish_def capture_data_url_def canvas_to_data_url_def
      place_image_def new_jsPDF_def js_mul_div_def export_file_name_def)

text \<open>
  C16: the placement keeps the aspect ratio of the capture exactly, and the image runs past
  the bottom of the single A4 page (where jsPDF clips it) exactly when the capture is
  taller, relative to its width, than 841.89 to 595.28.
\<close>

theorem place_image_aspect:
  assumes "0 < cv_width c"
  shows "\<exists>h. img_h (place_image new_jsPDF c u) = Num h \<and>
     h * of_nat (cv_width c) = of_nat (cv_height c) * img_w (place_image new_jsPDF c u) \<and>
     (pdf_page_height new_jsPDF < h \<longleftrightarrow> 84189 * cv_width c < 59528 * cv_height c)"
proof -
  let ?w = "of_nat (cv_width c) :: rat" and ?h = "of_nat (cv_height c) :: rat"
  let ?x = "?h * (59528 / 100) / ?w"
  have w: "0 < ?w" using assms by simp
  have h: "img_h (place_image new_jsPDF c u) = Num ?x"
    using assms by (simp add: place_image_def js_mul_div_def new_jsPDF_def)
  have r: "?x * ?w = ?h * img_w (place_image new_jsPDF c u)"
    using w by (simp add: place_image_def new_jsPDF_def)
  have q: "(84189 / 100 < ?x) \<longleftrightarrow> 84189 * ?w < 59528 * ?h"
    using w by (simp add: field_simps)
  have n: "(84189 * ?w < 59528 * ?h) \<longleftrightarrow> 84189 * cv_width c < 59528 * cv_height c"
    by (metis of_nat_less_iff of_nat_mult of_nat_numeral)
  have "(pdf_page_height new_jsPDF < ?x) \<longleftrightarrow> 84189 * cv_width c < 59528 * cv_height c"
    using q n by (simp add: new_jsPDF_def)
  with h r show ?thesis by blast
qed

text \<open>
  C15: every call that writes no file after the capture step ends in the \<open>catch\<close> block:
  the error is logged, then shown for 5 seconds as \<open>Failed to generate PDF: \<close> followed by
  its message.
\<close>

theorem generatePDF_failure_reported:
  assumes "downloads (generatePDF env True v) = []"
  shows "\<exists>e. generatePDF env True v =
     [ConsoleError [''Error generating PDF:'', error_message e],
      ShowToast \<lparr>t_title = ''Error'', t_description = ''Failed to generate PDF: '' @ error_message e,
        t_status = StatusError, t_duration = 5000, t_closable = True\<rparr>]"
proof -
  have "\<not> (\<exists>pdf. generatePDF env True v = [Download export_file_name pdf, ShowToast success_toast])"
    using assms by auto
  then obtain e where "generatePDF env True v = export_failed e"
    using generatePDF_finish_cases [of env "rasterize env capture_options v"]
    by (auto simp: generatePDF_mounted)
  then show ?thesis by (auto simp: export_failed_def failure_toast_def)
qed

subsection \<open>Witnesses\<close>

lemma generatePDF_success_witness:
  "rasterize \<lparr>rasterize = (\<lambda>_ _. Inr \<lparr>cv_width = 1190, cv_height = 1600, cv_png = ''iVBOR'', cv_tainted = False\<rparr>),
      taint_error = ThrownValue, add_image_error = (\<lambda>_ _. None), save_error = (\<lambda>_ _. None)\<rparr>
     capture_options (render_paystub \<lparr>tz_offset = (\<lambda>_. 0), parse_fallback = (\<lambda>_. None)\<rparr> [] initial_paystub) =
     Inr \<lparr>cv_width = 1190, cv_height = 1600, cv_png = ''iVBOR'', cv_tainted = False\<rparr> \<and>
   downloads (generatePDF \<lparr>rasterize = (\<lambda>_ _. Inr \<lparr>cv_width = 1190, cv_height = 1600, cv_png = ''iVBOR'', cv_tainted = False\<rparr>),
      taint_error = ThrownValue, add_image_error = (\<lambda>_ _. None), save_error = (\<lambda>_ _. None)\<rparr> True
     (render_paystub \<lparr>tz_offset = (\<lambda>_. 0), parse_fallback = (\<lambda>_. None)\<rparr> [] initial_paystub)) \<noteq> []"
  using generatePDF_success [of "\<lparr>rasterize = (\<lambda>_ _. Inr \<lparr>cv_width = 1190, cv_height = 1600, cv_png = ''iVBOR'', cv_tainted = False\<rparr>),
      taint_error = ThrownValue, add_image_error = (\<lambda>_ _. None), save_error = (\<lambda>_ _. None)\<rparr>"
    "render_paystub \<lparr>tz_offset = (\<lambda>_. 0), parse_fallback = (\<lambda>_. None)\<rparr> [] initial_paystub"
    "\<lparr>cv_width = 1190, cv_height = 1600, cv_png = ''iVBOR'', cv_tainted = False\<rparr>"]
  by simp

lemma place_image_aspect_witness:
  "0 < cv_width \<lparr>cv_width = 1190, cv_height = 2000, cv_png = ''iVBOR'', cv_tainted = False\<rparr> \<and>
   (84189::nat) * 1190 < 59528 * 2000 \<and>
   (\<exists>h. img_h (place_image new_jsPDF \<lparr>cv_width = 1190, cv_height = 2000, cv_png = ''iVBOR'', cv_tainted = False\<rparr>
      ''data:,'') = Num h \<and> pdf_page_height new_jsPDF < h)"
  using place_image_aspect [of "\<lparr>cv_width = 1190, cv_height = 2000, cv_png = ''iVBOR'', cv_tainted = False\<rparr>"
    "''data:,''"]
  by auto

lemma generatePDF_failure_reported_witness:
  "downloads (generatePDF \<lparr>rasterize = (\<lambda>_ _. Inl (ErrorObj ''Unable to find element in cloned iframe'')),
      taint_error = ThrownValue, add_image_error = (\<lambda>_ _. None), save_error = (\<lambda>_ _. None)\<rparr> True
     (render_paystub \<lparr>tz_offset = (\<lambda>_. 0), parse_fallback = (\<lambda>_. None)\<rparr> [] initial_paystub)) = [] \<and>
   (\<exists>e. generatePDF \<lparr>rasterize = (\<lambda>_ _. Inl (ErrorObj ''Unable to find element in cloned iframe'')),
      taint_error = ThrownValue, add_image_error = (\<lambda>_ _. None), save_error = (\<lambda>_ _. None)\<rparr> True
     (render_paystub \<lparr>tz_offset = (\<lambda>_. 0), parse_fallback = (\<lambda>_. None)\<rparr> [] initial_paystub) =
     [ConsoleError [''Error generating PDF:'', error_message e],
      ShowToast \<lparr>t_title = ''Error'', t_description = ''Failed to generate PDF: '' @ error_message e,
        t_status = StatusError, t_duration = 5000, t_closable = True\<rparr>])"
proof -
  have h: "downloads (generatePDF \<lparr>rasterize = (\<lambda>_ _. Inl (ErrorObj ''Unable to find element in cloned iframe'')),
      taint_error = ThrownValue, add_image_error = (\<lambda>_ _. None), save_error = (\<lambda>_ _. None)\<rparr> True
     (render_paystub \<lparr>tz_offset = (\<lambda>_. 0), parse_fallback = (\<lambda>_. None)\<rparr> [] initial_paystub)) = []"
    by (simp add: generatePDF_def generatePDF_start_def generatePDF_finish_def)
  show ?thesis using generatePDF_failure_reported [OF h] h by blast
qed

end
