(* ===== verification/Session.thy ===== *)
theory Session
  imports Export
begin

text \<open>
  The component over time (src/src/PaystubGenerator.js, lines 47--161): one mounted instance
  with its two pieces of state (\<open>paystubData\<close>, \<open>logoDataUrl\<close>), the ref to the paystub
  box, the logo effect that fires once after mounting, the inputs, and the export button whose
  handler \<open>generatePDF\<close> suspends at \<open>await html2canvas(...)\<close>. Events are interleaved
  by the browser's single-threaded event loop: a state is what the component holds between
  two events, and a step is one event handler running to completion or to its \<open>await\<close>.
  \<open>html2canvas\<close> clones the document when it is called, so a pending export holds the view
  of the paystub at the click; the rest of \<open>generatePDF\<close> runs when its capture settles, in
  any order relative to other events and other pending exports.
\<close>

record session =
  s_data :: paystub
  s_logo :: js_string
  s_logo_settled :: bool
  s_mounted :: bool
  s_jobs :: "(nat \<times> stub_view) list"
  s_next :: nat
  s_effects :: "effect list"

datatype ui_event =
    Mount
  | InputChange js_string js_string
  | LogoEvent img_event
  | ClickGenerate
  | CaptureSettles nat

definition initial_session :: session where
  "initial_session = \<lparr>s_data = initial_paystub, s_logo = initial_logo, s_logo_settled = False,
     s_mounted = False, s_jobs = [], s_next = 0, s_effects = []\<rparr>"

text \<open>The view the paystub box shows in a state.\<close>

definition current_view :: "date_env \<Rightarrow> session \<Rightarrow> stub_view" where
  "current_view denv s = render_paystub denv (s_logo s) (s_data s)"

text \<open>
  A click counts in \<open>s_next\<close> and runs \<open>generatePDF\<close> up to its \<open>await\<close>: either
  the guard's toast is shown at once, or the view handed to \<open>html2canvas\<close> waits as a
  pending export numbered by the click.
\<close>

definition click_result :: "session \<Rightarrow> effect list + stub_view \<Rightarrow> session" where
  "click_result s r =
     (case r of
        Inl effs \<Rightarrow> s\<lparr>s_next := Suc (s_next s), s_effects := s_effects s @ effs\<rparr>
      | Inr v \<Rightarrow> s\<lparr>s_jobs := s_jobs s @ [(s_next s, v)], s_next := Suc (s_next s)\<rparr>)"

text \<open>
  The step relation, one rule per event: the first render and the commit that sets
  \<open>paystubRef\<close>; an input's \<open>onChange\<close>; the logo image's \<open>load\<close> or \<open>error\<close>
  event, once, after the mount that ran the effect; a click on the button (rendered only while
  mounted; its handler reads \<open>paystubRef.current\<close>, which the commit of the mount set), which
  runs \<open>generatePDF\<close> up to the \<open>await\<close>; the settling of a pending
  capture, which runs the rest of \<open>generatePDF\<close>.
\<close>

inductive session_step :: "date_env \<Rightarrow> export_env \<Rightarrow> session \<Rightarrow> ui_event \<Rightarrow> session \<Rightarrow> bool"
  for denv eenv where
  mount: "\<not> s_mounted s \<Longrightarrow> session_step denv eenv s Mount (s\<lparr>s_mounted := True\<rparr>)"
| input: "s_mounted s \<Longrightarrow>
    session_step denv eenv s (InputChange n v) (s\<lparr>s_data := handleInputChange n v (s_data s)\<rparr>)"
| logo: "s_mounted s \<Longrightarrow> \<not> s_logo_settled s \<Longrightarrow>
    session_step denv eenv s (LogoEvent ev)
      (s\<lparr>s_logo := fst (logo_handler ev), s_logo_settled := True,
         s_effects := s_effects s @ map (\<lambda>m. ConsoleError [m]) (snd (logo_handler ev))\<rparr>)"
| click: "s_mounted s \<Longrightarrow>
    session_step denv eenv s ClickGenerate
      (click_result s (generatePDF_start (s_mounted s) (current_view denv s)))"
| settle: "map_of (s_jobs s) j = Some v \<Longrightarrow>
    session_step denv eenv s (CaptureSettles j)
      (s\<lparr>s_jobs := filter (\<lambda>p. fst p \<noteq> j) (s_jobs s),
         s_effects := s_effects s @ generatePDF_finish eenv (rasterize eenv capture_options v)\<rparr>)"

inductive_cases session_step_MountE: "session_step denv eenv s Mount t"
inductive_cases session_step_InputE: "session_step denv eenv s (InputChange n v) t"
inductive_cases session_step_LogoE: "session_step denv eenv s (LogoEvent ev) t"
inductive_cases session_step_ClickE: "session_step denv eenv s ClickGenerate t"
inductive_cases session_step_SettleE: "session_step denv eenv s (CaptureSettles j) t"

lemma click_result_Inr [simp]:
  "click_result s (Inr v) = s\<lparr>s_jobs := s_jobs s @ [(s_next s, v)], s_next := Suc (s_next s)\<rparr>"
  by (simp add: click_result_def)

text \<open>On a mounted component the guard passes: a click adds a pending export.\<close>

lemma session_step_click_mounted:
  "s_mounted s \<Longrightarrow> session_step denv eenv s ClickGenerate
     (s\<lparr>s_jobs := s_jobs s @ [(s_next s, current_view denv s)], s_next := Suc (s_next s)\<rparr>)"
  using session_step.click [of s denv eenv] by simp

lemma session_step_ClickD:
  "session_step denv eenv s ClickGenerate t \<Longrightarrow>
     s_mounted s \<and> t = s\<lparr>s_jobs := s_jobs s @ [(s_next s, current_view denv s)], s_next := Suc (s_next s)\<rparr>"
  by (auto elim: session_step_ClickE)

text \<open>Runs: a list of events, each a step from the state the previous one left.\<close>

inductive session_run :: "date_env \<Rightarrow> export_env \<Rightarrow> session \<Rightarrow> ui_event list \<Rightarrow> session \<Rightarrow> bool"
  for denv eenv where
  run_nil: "session_run denv eenv s [] s"
| run_cons: "session_step denv eenv s e t \<Longrightarrow> session_run denv eenv t es u \<Longrightarrow>
    session_run denv eenv s (e # es) u"

definition reachable :: "date_env \<Rightarrow> export_env \<Rightarrow> session \<Rightarrow> bool" where
  "reachable denv eenv s \<longleftrightarrow> (\<exists>es. session_run denv eenv initial_session es s)"

text \<open>The same steps as an executable function: \<open>None\<close> where the event cannot happen.\<close>

fun session_step_fn :: "date_env \<Rightarrow> export_env \<Rightarrow> session \<Rightarrow> ui_event \<Rightarrow> session option" where
  "session_step_fn denv eenv s Mount =
     (if s_mounted s then None else Some (s\<lparr>s_mounted := True\<rparr>))"
| "session_step_fn denv eenv s (InputChange n v) =
     (if s_mounted s then Some (s\<lparr>s_data := handleInputChange n v (s_data s)\<rparr>) else None)"
| "session_step_fn denv eenv s (LogoEvent ev) =
     (if s_mounted s \<and> \<not> s_logo_settled s then
        Some (s\<lparr>s_logo := fst (logo_handler ev), s_logo_settled := True,
          s_effects := s_effects s @ map (\<lambda>m. ConsoleError [m]) (snd (logo_handler ev))\<rparr>)
      else None)"
| "session_step_fn denv eenv s ClickGenerate =
     (if s_mounted s then Some (click_result s (generatePDF_start (s_mounted s) (current_view denv s)))
      else None)"
| "session_step_fn denv eenv s (CaptureSettles j) =
     (case map_of (s_jobs s) j of
        None \<Rightarrow> None
      | Some v \<Rightarrow> Some (s\<lparr>s_jobs := filter (\<lambda>p. fst p \<noteq> j) (s_jobs s),
          s_effects := s_effects s @ generatePDF_finish eenv (rasterize eenv capture_options v)\<rparr>))"

fun session_run_fn :: "date_env \<Rightarrow> export_env \<Rightarrow> session \<Rightarrow> ui_event list \<Rightarrow> session option" where
  "session_run_fn denv eenv s [] = Some s"
| "session_run_fn denv eenv s (e # es) =
     (case session_step_fn denv eenv s e of None \<Rightarrow> None | Some t \<Rightarrow> session_run_fn denv eenv t es)"

subsection \<open>The invariant of the session\<close>

text \<open>Every download is immediately followed by the success toast.\<close>

fun downloads_confirmed :: "effect list \<Rightarrow> bool" where
  "downloads_confirmed [] = True"
| "downloads_confirmed (Download f p # es) =
     ((case es of ShowToast t # _ \<Rightarrow> t = success_toast \<and> f = export_file_name | _ \<Rightarrow> False) \<and>
      downloads_confirmed es)"
| "downloads_confirmed (_ # es) = downloads_confirmed es"

definition session_inv :: "session \<Rightarrow> bool" where
  "session_inv s \<longleftrightarrow>
     distinct (map fst (s_jobs s)) \<and> list_all (\<lambda>p. fst p < s_next s) (s_jobs s) \<and>
     length (toasts (s_effects s)) + length (s_jobs s) = s_next s \<and>
     downloads_confirmed (s_effects s) \<and> missing_toast \<notin> set (toasts (s_effects s)) \<and>
     (\<not> s_logo_settled s \<longrightarrow> s_logo s = []) \<and> data_url_or_empty (s_logo s)"

subsection \<open>Lemmas of the session\<close>

lemma downloads_confirmed_append:
  "downloads_confirmed xs \<Longrightarrow> downloads_confirmed ys \<Longrightarrow> downloads_confirmed (xs @ ys)"
  by (induction xs rule: downloads_confirmed.induct) (auto split: list.splits effect.splits)

lemma downloads_confirmed_console [simp]: "downloads_confirmed (map (\<lambda>m. ConsoleError [m]) ms)"
  by (induction ms) simp_all

lemma toasts_console [simp]: "toasts (map (\<lambda>m. ConsoleError [m]) ms) = []"
  by (induction ms) simp_all

lemma generatePDF_finish_confirmed: "downloads_confirmed (generatePDF_finish env cap)"
  using generatePDF_finish_cases [of env cap] by (auto simp: export_failed_def)

lemma generatePDF_finish_toast: "\<exists>t. toasts (generatePDF_finish env cap) = [t] \<and> t \<noteq> missing_toast"
  using generatePDF_finish_cases [of env cap] toast_distinct [THEN not_sym]
  by (auto simp: export_failed_def)

lemma map_of_filter_other: "j \<noteq> k \<Longrightarrow> map_of (filter (\<lambda>p. fst p \<noteq> k) xs) j = map_of xs j"
  by (induction xs) auto

lemma length_filter_key:
  "distinct (map fst xs) \<Longrightarrow> map_of xs j = Some v \<Longrightarrow> Suc (length (filter (\<lambda>p. fst p \<noteq> j) xs)) = length xs"
proof (induction xs)
  case (Cons p xs)
  show ?case
  proof (cases "fst p = j")
    case True
    then have "filter (\<lambda>q. fst q \<noteq> j) xs = xs"
      using Cons.prems(1) by (auto simp: filter_id_conv intro: rev_image_eqI)
    then show ?thesis using True by simp
  next
    case False
    then show ?thesis using Cons by (auto split: if_splits)
  qed
qed simp

lemma session_inv_initial: "session_inv initial_session"
  by (simp add: session_inv_def initial_session_def initial_logo_def data_url_or_empty_def)

lemma session_step_inv: "session_step denv eenv s e t \<Longrightarrow> session_inv s \<Longrightarrow> session_inv t"
proof (induction rule: session_step.induct)
  case (logo s ev)
  then show ?case
    using logo_handler_data_url [of ev] by (simp add: session_inv_def downloads_confirmed_append)
next
  case (click s)
  then show ?case
    by (auto simp: session_inv_def list_all_iff click_result_def)
next
  case (settle s j v)
  have d: "distinct (map fst (s_jobs s))" using settle.prems by (simp add: session_inv_def)
  obtain t where "toasts (generatePDF_finish eenv (rasterize eenv capture_options v)) = [t]"
      "t \<noteq> missing_toast"
    using generatePDF_finish_toast by blast
  then show ?case
    using settle length_filter_key [OF d settle.hyps]
    by (auto simp: session_inv_def list_all_iff distinct_map_filter downloads_confirmed_append
        generatePDF_finish_confirmed)
qed (simp_all add: session_inv_def)

lemma session_run_inv: "session_run denv eenv s es t \<Longrightarrow> session_inv s \<Longrightarrow> session_inv t"
  by (induction rule: session_run.induct) (auto intro: session_step_inv)

lemma reachable_session_inv: "reachable denv eenv s \<Longrightarrow> session_inv s"
  unfolding reachable_def using session_run_inv session_inv_initial by blast

lemma session_step_fn_sound:
  "session_step_fn denv eenv s e = Some t \<Longrightarrow> session_step denv eenv s e t"
  by (cases e) (auto intro: session_step.intros session_step_click_mounted split: if_splits option.splits)

lemma session_run_fn_sound:
  "session_run_fn denv eenv s es = Some t \<Longrightarrow> session_run denv eenv s es t"
proof (induction es arbitrary: s)
  case Nil
  then show ?case by (simp add: session_run.run_nil)
next
  case (Cons e es)
  then obtain s' where "session_step_fn denv eenv s e = Some s'" "session_run_fn denv eenv s' es = Some t"
    by (auto split: option.splits)
  then show ?case by (blast intro: session_run.run_cons session_step_fn_sound Cons.IH)
qed

lemma session_run_append:
  "session_run denv eenv s es t \<Longrightarrow> session_run denv eenv t fs u \<Longrightarrow> session_run denv eenv s (es @ fs) u"
  by (induction rule: session_run.induct) (auto intro: session_run.intros)

lemma session_step_jobs_kept:
  assumes "session_step denv eenv s e t" and "CaptureSettles j \<noteq> e" and "map_of (s_jobs s) j = Some v"
  shows "map_of (s_jobs t) j = Some v"
  using assms by (induction rule: session_step.induct) (simp_all add: map_of_filter_other)

lemma session_run_jobs_kept:
  "session_run denv eenv s es t \<Longrightarrow> CaptureSettles j \<notin> set es \<Longrightarrow> map_of (s_jobs s) j = Some v \<Longrightarrow>
     map_of (s_jobs t) j = Some v"
  by (induction rule: session_run.induct) (auto dest: session_step_jobs_kept)

lemma session_drain:
  "s_jobs s = xs \<Longrightarrow> distinct (map fst xs) \<Longrightarrow>
   \<exists>t. session_run denv eenv s (map (\<lambda>p. CaptureSettles (fst p)) xs) t \<and> s_jobs t = [] \<and>
       s_next t = s_next s \<and> length (toasts (s_effects t)) = length (toasts (s_effects s)) + length xs"
proof (induction xs arbitrary: s)
  case Nil
  then show ?case by (auto intro: session_run.run_nil)
next
  case (Cons p xs)
  obtain j v where p: "p = (j, v)" by fastforce
  let ?s1 = "s\<lparr>s_jobs := filter (\<lambda>q. fst q \<noteq> j) (s_jobs s),
      s_effects := s_effects s @ generatePDF_finish eenv (rasterize eenv capture_options v)\<rparr>"
  have step: "session_step denv eenv s (CaptureSettles j) ?s1"
    by (rule session_step.settle) (simp add: Cons.prems(1) p)
  have "filter (\<lambda>q. fst q \<noteq> j) xs = xs"
    using Cons.prems(2) p by (auto simp: filter_id_conv intro: rev_image_eqI)
  then have j1: "s_jobs ?s1 = xs" using Cons.prems(1) p by simp
  obtain t where t: "session_run denv eenv ?s1 (map (\<lambda>p. CaptureSettles (fst p)) xs) t" "s_jobs t = []"
      "s_next t = s_next ?s1" "length (toasts (s_effects t)) = length (toasts (s_effects ?s1)) + length xs"
  proof -
    have d: "distinct (map fst xs)" using Cons.prems(2) by simp
    show ?thesis using Cons.IH [OF j1 d] that by blast
  qed
  obtain u where "toasts (generatePDF_finish eenv (rasterize eenv capture_options v)) = [u]"
    using generatePDF_finish_toast by blast
  moreover have "session_run denv eenv s (CaptureSettles j # map (\<lambda>p. CaptureSettles (fst p)) xs) t"
    by (rule session_run.run_cons [OF step t(1)])
  ultimately show ?case
    using t(2-4) p by auto
qed

lemma reachable_run_fn:
  "session_run_fn denv eenv initial_session es = Some t \<Longrightarrow> reachable denv eenv t"
  unfolding reachable_def by (blast dest: session_run_fn_sound)

text \<open>A run of input events from a mounted state applies the edits in order.\<close>

lemma session_run_inputs:
  "s_mounted s \<Longrightarrow>
   session_run denv eenv s (map (\<lambda>(n, v). InputChange n v) edits) (s\<lparr>s_data := apply_edits edits (s_data s)\<rparr>)"
proof (induction edits arbitrary: s)
  case Nil
  then show ?case using session_run.run_nil [of denv eenv s] by simp
next
  case (Cons e edits)
  obtain n v where e: "e = (n, v)" by fastforce
  let ?s1 = "s\<lparr>s_data := handleInputChange n v (s_data s)\<rparr>"
  have "session_step denv eenv s (InputChange n v) ?s1"
    using Cons.prems by (rule session_step.input)
  moreover have "session_run denv eenv ?s1 (map (\<lambda>(n, v). InputChange n v) edits)
      (?s1\<lparr>s_data := apply_edits edits (s_data ?s1)\<rparr>)"
    using Cons.IH [of ?s1] Cons.prems by simp
  ultimately show ?case
    using e by (auto intro: session_run.run_cons)
qed

lemma session_input_step_data:
  "session_step denv eenv s (InputChange n v) t \<Longrightarrow> t = s\<lparr>s_data := handleInputChange n v (s_data s)\<rparr>"
  by (auto elim: session_step_InputE)

lemma session_click_job:
  assumes "session_inv s" and "session_step denv eenv s ClickGenerate s1"
  shows "map_of (s_jobs s1) (s_next s) = Some (current_view denv s)"
proof -
  have "s_next s \<notin> fst ` set (s_jobs s)"
    using assms(1) by (auto simp: session_inv_def list_all_iff)
  then have "map_of (s_jobs s) (s_next s) = None" by (simp add: map_of_eq_None_iff)
  then show ?thesis
    using session_step_ClickD [OF assms(2)] by (simp add: map_add_Some_iff)
qed

subsection \<open>Properties of the session\<close>

text \<open>
  C9: every click is answered exactly once: in every reachable state the toasts shown and
  the exports still waiting for their capture add up to the number of clicks, and the
  waiting exports have distinct numbers.
\<close>

theorem session_exports_answered:
  "reachable denv eenv s \<Longrightarrow>
     length (toasts (s_effects s)) + length (s_jobs s) = s_next s \<and> distinct (map fst (s_jobs s))"
  using reachable_session_inv by (simp add: session_inv_def)

text \<open>
  C10: no partial file: in every reachable state each download of the effect history is
  the fixed file name and is immediately followed by the success toast.
\<close>

theorem session_downloads_confirmed:
  "reachable denv eenv s \<Longrightarrow> downloads_confirmed (s_effects s)"
  using reachable_session_inv by (simp add: session_inv_def)

text \<open>
  C11: a click runs the guard of \<open>generatePDF\<close> on \<open>paystubRef.current\<close>, which the
  commit of the mount has set before the button can be clicked, so in a run of the component
  the toast \<open>Could not find paystub content.\<close> is never shown.
\<close>

theorem session_no_missing_target:
  "reachable denv eenv s \<Longrightarrow> missing_toast \<notin> set (toasts (s_effects s))"
  using reachable_session_inv by (simp add: session_inv_def)

text \<open>
  C25: the logo state: until the image has fired its event the paystub shows the
  placeholder, and the state only ever holds the empty string or a data URL.
\<close>

theorem session_logo_state:
  "reachable denv eenv s \<Longrightarrow>
     (\<not> s_logo_settled s \<longrightarrow> sv_logo (current_view denv s) = LogoPlaceholder ''EVMOS'' ''#ff5a5a'') \<and>
     data_url_or_empty (s_logo s)"
  using reachable_session_inv
  by (auto simp: session_inv_def current_view_def render_logo_def)

text \<open>
  C12: every export completes: from every reachable state, letting the pending captures
  settle, with no further user action, reaches a state with no pending export in which the
  number of toasts equals the number of clicks.
\<close>

theorem session_exports_complete:
  assumes "reachable denv eenv s"
  shows "\<exists>es t. session_run denv eenv s es t \<and> list_all (\<lambda>e. \<exists>j. e = CaptureSettles j) es \<and>
     s_jobs t = [] \<and> length (toasts (s_effects t)) = s_next t"
proof -
  have i: "session_inv s" using assms by (rule reachable_session_inv)
  then obtain t where t: "session_run denv eenv s (map (\<lambda>p. CaptureSettles (fst p)) (s_jobs s)) t"
      "s_jobs t = []" "s_next t = s_next s"
      "length (toasts (s_effects t)) = length (toasts (s_effects s)) + length (s_jobs s)"
    using session_drain [of s "s_jobs s" denv eenv] by (auto simp: session_inv_def)
  have "list_all (\<lambda>e. \<exists>j. e = CaptureSettles j) (map (\<lambda>p. CaptureSettles (fst p)) (s_jobs s))"
    by (simp add: list_all_iff)
  moreover have "length (toasts (s_effects t)) = s_next t"
    using t(3,4) i by (simp add: session_inv_def)
  ultimately show ?thesis
    using t(1,2) by blast
qed

text \<open>
  C3: the file shows the paystub as it was at the click: whatever is edited, loaded or
  exported between the click and the settling of its capture, the effects of that export
  are those of \<open>generatePDF\<close> on the view at the click.
\<close>

theorem session_pdf_snapshot:
  assumes "reachable denv eenv s" and "session_step denv eenv s ClickGenerate s1"
    and "session_run denv eenv s1 es s2" and "CaptureSettles (s_next s) \<notin> set es"
    and "session_step denv eenv s2 (CaptureSettles (s_next s)) s3"
  shows "s_effects s3 = s_effects s2 @ generatePDF eenv True (current_view denv s)"
proof -
  have "map_of (s_jobs s1) (s_next s) = Some (current_view denv s)"
    using session_click_job [OF reachable_session_inv [OF assms(1)] assms(2)] .
  then have "map_of (s_jobs s2) (s_next s) = Some (current_view denv s)"
    using session_run_jobs_kept [OF assms(3,4)] by blast
  then show ?thesis
    using assms(5) by (auto simp: generatePDF_mounted elim: session_step_SettleE)
qed

text \<open>
  C13: the export button has no in-progress guard: from every reachable mounted state, a
  second click while the first export is still waiting for its capture starts a second
  export, and when both captures are clean the file is downloaded twice. The specification
  allows a new export only after the previous attempt has resolved.
\<close>

theorem session_double_click_two_files:
  assumes "reachable denv eenv s" and "s_mounted s"
    and "\<forall>v. \<exists>c. rasterize eenv capture_options v = Inr c \<and> \<not> cv_tainted c"
    and "add_image_error eenv = (\<lambda>_ _. None)" and "save_error eenv = (\<lambda>_ _. None)"
  shows "\<exists>t. session_run denv eenv s
      [ClickGenerate, ClickGenerate, CaptureSettles (s_next s), CaptureSettles (Suc (s_next s))] t \<and>
    length (downloads (s_effects t)) = length (downloads (s_effects s)) + 2"
proof -
  let ?v = "current_view denv s"
  obtain c where c: "rasterize eenv capture_options ?v = Inr c" "\<not> cv_tainted c"
    using assms(3) by blast
  have n: "map_of (s_jobs s) (s_next s) = None" "map_of (s_jobs s) (Suc (s_next s)) = None"
    using reachable_session_inv [OF assms(1)]
    by (auto simp: session_inv_def list_all_iff map_of_eq_None_iff)
  have f: "downloads (generatePDF_finish eenv (rasterize eenv capture_options ?v)) = [(export_file_name,
      new_jsPDF\<lparr>pdf_images := [place_image new_jsPDF c (canvas_to_data_url (cv_width c) (cv_height c) (cv_png c))]\<rparr>)]"
    using c assms(4,5) by (simp add: generatePDF_finish_def capture_data_url_def new_jsPDF_def)
  let ?t = "the (session_run_fn denv eenv s
      [ClickGenerate, ClickGenerate, CaptureSettles (s_next s), CaptureSettles (Suc (s_next s))])"
  have r: "session_run_fn denv eenv s
      [ClickGenerate, ClickGenerate, CaptureSettles (s_next s), CaptureSettles (Suc (s_next s))] = Some ?t"
    using assms(2) n by (simp add: current_view_def map_add_def map_of_filter_other)
  have "length (downloads (s_effects ?t)) = length (downloads (s_effects s)) + 2"
    using assms(2) n f by (simp add: current_view_def map_add_def map_of_filter_other)
  then show ?thesis using session_run_fn_sound [OF r] by blast
qed

subsection \<open>Witnesses\<close>

abbreviation demo_denv :: date_env where
  "demo_denv \<equiv> \<lparr>tz_offset = (\<lambda>_. 0), parse_fallback = (\<lambda>_. None)\<rparr>"

abbreviation demo_eenv :: export_env where
  "demo_eenv \<equiv> \<lparr>rasterize = (\<lambda>_ v. Inr \<lparr>cv_width = 1190, cv_height = 1600, cv_png = sv_name v, cv_tainted = False\<rparr>),
     taint_error = ThrownValue, add_image_error = (\<lambda>_ _. None), save_error = (\<lambda>_ _. None)\<rparr>"

text \<open>A session that has mounted, clicked once, and is waiting for the capture.\<close>

abbreviation demo_waiting :: session where
  "demo_waiting \<equiv> the (session_run_fn demo_denv demo_eenv initial_session [Mount, ClickGenerate])"

lemma demo_waiting_reachable: "reachable demo_denv demo_eenv demo_waiting"
  by (rule reachable_run_fn [of _ _ "[Mount, ClickGenerate]"]) (simp add: initial_session_def)

lemma session_exports_answered_witness:
  "reachable demo_denv demo_eenv demo_waiting \<and> length (s_jobs demo_waiting) = 1 \<and>
   length (toasts (s_effects demo_waiting)) + length (s_jobs demo_waiting) = s_next demo_waiting"
  using session_exports_answered [OF demo_waiting_reachable] demo_waiting_reachable
  by (simp add: initial_session_def)

lemma session_downloads_confirmed_witness:
  "reachable demo_denv demo_eenv demo_waiting \<and> downloads_confirmed (s_effects demo_waiting)"
  using session_downloads_confirmed [OF demo_waiting_reachable] demo_waiting_reachable by simp

lemma session_no_missing_target_witness:
  "reachable demo_denv demo_eenv demo_waiting \<and> missing_toast \<notin> set (toasts (s_effects demo_waiting))"
  using session_no_missing_target [OF demo_waiting_reachable] demo_waiting_reachable by simp

lemma session_logo_state_witness:
  "reachable demo_denv demo_eenv demo_waiting \<and> \<not> s_logo_settled demo_waiting \<and>
   sv_logo (current_view demo_denv demo_waiting) = LogoPlaceholder ''EVMOS'' ''#ff5a5a''"
proof -
  have "\<not> s_logo_settled demo_waiting" by (simp add: initial_session_def)
  then show ?thesis
    using session_logo_state [OF demo_waiting_reachable] demo_waiting_reachable by simp
qed

text \<open>Two more clicks while the first export of \<open>demo_waiting\<close> is still pending.\<close>

lemma session_double_click_two_files_witness:
  "reachable demo_denv demo_eenv demo_waiting \<and> s_mounted demo_waiting \<and> s_jobs demo_waiting \<noteq> [] \<and>
   (\<forall>v. \<exists>c. rasterize demo_eenv capture_options v = Inr c \<and> \<not> cv_tainted c) \<and>
   (\<exists>t. session_run demo_denv demo_eenv demo_waiting
      [ClickGenerate, ClickGenerate, CaptureSettles (s_next demo_waiting),
       CaptureSettles (Suc (s_next demo_waiting))] t \<and>
    length (downloads (s_effects t)) = length (downloads (s_effects demo_waiting)) + 2)"
proof -
  have h: "s_mounted demo_waiting" "s_jobs demo_waiting \<noteq> []"
      "\<forall>v. \<exists>c. rasterize demo_eenv capture_options v = Inr c \<and> \<not> cv_tainted c"
      "add_image_error demo_eenv = (\<lambda>_ _. None)" "save_error demo_eenv = (\<lambda>_ _. None)"
    by (simp_all add: initial_session_def)
  show ?thesis
    using session_double_click_two_files [OF demo_waiting_reachable h(1) h(3-5)]
      demo_waiting_reachable h(1-3) by blast
qed

lemma session_exports_complete_witness:
  "reachable demo_denv demo_eenv demo_waiting \<and>
   (\<exists>es t. session_run demo_denv demo_eenv demo_waiting es t \<and> s_jobs t = [] \<and>
      length (toasts (s_effects t)) = s_next t)"
  using session_exports_complete [OF demo_waiting_reachable] demo_waiting_reachable by blast

text \<open>Click on the blank record, type a name, then let the capture settle: the file shows
  the blank record (the name \<open>N/A\<close> the view had at the click, as the PNG of the demo
  environment), not the name typed after the click.\<close>

abbreviation demo_mounted :: session where
  "demo_mounted \<equiv> the (session_run_fn demo_denv demo_eenv initial_session [Mount])"

abbreviation demo_clicked :: session where
  "demo_clicked \<equiv> the (session_step_fn demo_denv demo_eenv demo_mounted ClickGenerate)"

abbreviation demo_edited :: session where
  "demo_edited \<equiv> the (session_run_fn demo_denv demo_eenv demo_clicked [InputChange ''name'' ''B''])"

abbreviation demo_settled :: session where
  "demo_settled \<equiv> the (session_step_fn demo_denv demo_eenv demo_edited (CaptureSettles 0))"

lemma session_pdf_snapshot_witness:
  "reachable demo_denv demo_eenv demo_mounted \<and>
   session_step demo_denv demo_eenv demo_mounted ClickGenerate demo_clicked \<and>
   session_run demo_denv demo_eenv demo_clicked [InputChange ''name'' ''B''] demo_edited \<and>
   CaptureSettles (s_next demo_mounted) \<notin> set [InputChange ''name'' ''B''] \<and>
   session_step demo_denv demo_eenv demo_edited (CaptureSettles (s_next demo_mounted)) demo_settled \<and>
   name (s_data demo_settled) = ''B'' \<and>
   s_effects demo_settled = s_effects demo_edited @ generatePDF demo_eenv True (current_view demo_denv demo_mounted) \<and>
   map (\<lambda>(f, p). map img_data (pdf_images p)) (downloads (s_effects demo_settled)) =
     [[''data:image/png;base64,N/A'']]"
proof -
  have m: "session_run_fn demo_denv demo_eenv initial_session [Mount] = Some demo_mounted"
    by (simp add: initial_session_def)
  have c: "session_step_fn demo_denv demo_eenv demo_mounted ClickGenerate = Some demo_clicked"
    by (simp add: initial_session_def)
  have e: "session_run_fn demo_denv demo_eenv demo_clicked [InputChange ''name'' ''B''] = Some demo_edited"
    by (simp add: initial_session_def)
  have n: "s_next demo_mounted = 0" by (simp add: initial_session_def)
  have s: "session_step_fn demo_denv demo_eenv demo_edited (CaptureSettles 0) = Some demo_settled"
    by (simp add: initial_session_def)
  have h: "reachable demo_denv demo_eenv demo_mounted"
    "session_step demo_denv demo_eenv demo_mounted ClickGenerate demo_clicked"
    "session_run demo_denv demo_eenv demo_clicked [InputChange ''name'' ''B''] demo_edited"
    "CaptureSettles (s_next demo_mounted) \<notin> set [InputChange ''name'' ''B'']"
    "session_step demo_denv demo_eenv demo_edited (CaptureSettles (s_next demo_mounted)) demo_settled"
    using reachable_run_fn [OF m] session_step_fn_sound [OF c] session_run_fn_sound [OF e]
      session_step_fn_sound [OF s] n by simp_all
  have eff: "s_effects demo_settled = s_effects demo_edited @ generatePDF demo_eenv True (current_view demo_denv demo_mounted)"
    by (rule session_pdf_snapshot [OF h])
  have "name (s_data demo_settled) = ''B''"
    by (simp add: initial_session_def handleInputChange_def field_of_name_def all_fields_def)
  moreover have "map (\<lambda>(f, p). map img_data (pdf_images p)) (downloads (s_effects demo_settled)) =
     [[''data:image/png;base64,N/A'']]"
    unfolding eff
    by (simp add: initial_session_def generatePDF_def generatePDF_start_def generatePDF_finish_def capture_data_url_def
        canvas_to_data_url_def current_view_def render_paystub_def or_na_def initial_paystub_def
        new_jsPDF_def place_image_def)
  ultimately show ?thesis using h eff by simp
qed

end
