(* ===== verification/Spec2Isabelle.thy ===== *)
theory Spec2Isabelle
  imports Record_Model Currency_Format Date_Format Logo_Resolver Layout Export Session
begin

text \<open>
  \<^bold>\<open>Paystub-Generator: a verification development.\<close>

  The program is one React function component, \<open>PaystubGenerator\<close> in
  src/src/PaystubGenerator.js. It holds a record of eight text fields edited by a form, a
  logo resolved once into a data URL, and renders a paystub preview; a button captures the
  preview with html2canvas and saves it as a one-page A4 PDF with jsPDF, reporting the outcome
  in a toast. The development models the component's code as plain HOL definitions, one
  theory per part, and proves what the parts do, including where they differ from the
  specification.

  \<^bold>\<open>Theories and what they model.\<close>
  \<^item> \<open>Paystub_Prelude\<close>: strings as lists of UTF-8 bytes (\<open>js_string\<close>), decimal digit
    printing \<open>show_nat\<close> and reading \<open>read_digits\<close> shared by both formatters, the
    evaluation collection \<open>fmt_simps\<close>, and generic list lemmas.
  \<^item> \<open>Record_Model\<close> (lines 48--57, 81--87, 178--268): the \<open>paystubData\<close> state as
    the record \<open>paystub\<close>, the input names as the datatype \<open>field\<close>,
    \<open>handleInputChange\<close> as the functional update of the named key, and \<open>apply_edits\<close>
    for the queued updates applied in order.
  \<^item> \<open>Currency_Format\<close> (lines 89--96): \<open>formatCurrency\<close> is
    \<open>Intl.NumberFormat("en-US", USD, 2 digits).format(amount || 0)\<close> on a string.
    ECMA-402 reads a string exactly as a decimal (\<open>string_intl_mv\<close>: white space trim,
    sign, \<open>Infinity\<close>, digits with fraction and exponent, 0x/0o/0b literals, NaN
    otherwise), checks it against the double range (\<open>round_mv_result\<close>), rounds half away
    from zero to cents (\<open>cents_of\<close>) and prints \<open>$\<close>, comma groups (\<open>group3\<close>), the
    point and two digits, with \<open>-\<close> before the sign, \<open>$NaN\<close> and \<open>$\<infinity>\<close>.
  \<^item> \<open>Date_Format\<close> (lines 98--109): \<open>formatDate\<close>. \<open>new Date(s)\<close> reads a date-only
    form (\<open>parse_iso_date\<close>) as UTC midnight; other strings go to the implementation's own
    parser, the environment function \<open>parse_fallback\<close>. \<open>getTimezoneOffset\<close> is the
    environment function \<open>tz_offset\<close> (minutes, UTC minus local). The adjusted time is
    clipped (\<open>time_clip\<close>) and printed in UTC as \<open>MMM d, y\<close>, with the ECMA-262 calendar
    (\<open>day_from_year\<close>, \<open>year_from_day\<close>, \<open>month_from_dwy\<close>, \<open>civil_of_day\<close>).
  \<^item> \<open>Logo_Resolver\<close> (lines 22, 59, 63--79): the load handler stores
    \<open>canvas.toDataURL("image/png")\<close> (\<open>canvas_to_data_url\<close>, which is \<open>data:,\<close> for an
    empty canvas) and the error handler logs and stores the empty string (\<open>logo_handler\<close>).
  \<^item> \<open>Layout\<close> (lines 163--468): the form (\<open>render_form\<close>: the eight controlled inputs in
    order and the button) and the paystub (\<open>render_paystub\<close>: logo or placeholder,
    organisation, name or \<open>N/A\<close>, pay date, pay period, the one-row earnings table and its
    total, hash and URL) as records of the texts they show.
  \<^item> \<open>Export\<close> (lines 111--161): \<open>generatePDF\<close> as the ordered list of its effects
    (toasts, the download, console lines). The guard on \<open>paystubRef.current\<close>, then
    \<open>generatePDF_finish\<close> on what the capture settled to: \<open>toDataURL\<close> (throws on a
    tainted canvas), the A4 portrait document \<open>new_jsPDF\<close> of 595.28 by 841.89 points,
    \<open>place_image\<close> (page width, height \<open>ch * 595.28 / cw\<close>), \<open>addImage\<close>, \<open>save\<close>,
    and the three toasts. The libraries are the record \<open>export_env\<close>: the capture result
    as a function of the options and the view, the taint error, and the exceptions of
    \<open>addImage\<close> and \<open>save\<close>.
  \<^item> \<open>Session\<close> (lines 47--161): the component over time as the inductive relation
    \<open>session_step\<close> over the events mount, input change, the logo event (once, after
    mounting), click (runs \<open>generatePDF\<close> up to its \<open>await\<close> and keeps the view
    html2canvas clones) and the settling of a pending capture (runs the rest), in any
    interleaving; \<open>session_run\<close> for runs and \<open>reachable\<close> for the states of runs from
    \<open>initial_session\<close>. A click goes through the same guard \<open>generatePDF_start\<close> as
    \<open>generatePDF\<close> (\<open>click_result\<close>). The executable \<open>session_step_fn\<close> mirrors the
    relation and serves to evaluate concrete runs in the witnesses.

  \<^bold>\<open>What the lemmas show.\<close>
  \<^item> Record model: an edit changes exactly its field and refines a function update of the
    record seen as a total map; a sequence of edits leaves each field at its last value.
  \<^item> Currency: decimal strings print their value rounded half away from zero to cents, the
    rounding error is within one half, the grouping equals a reference grouping, a minus
    sign only adds \<open>-\<close> (\<open>-0\<close> prints \<open>-$0.00\<close>), and non-numeric strings print
    \<open>$NaN\<close>.
  \<^item> Date: the calendar is a bijection between day numbers and valid dates, the date input's
    \<open>yyyy-mm-dd\<close> value parses back to its date, west of UTC a date is printed as written,
    east of UTC it is printed as the day before (a bug), and unparsable text prints
    \<open>Invalid Date\<close>.
  \<^item> Layout: the form is a faithful editor, the total row restates the line item, blank text
    fields show \<open>N/A\<close>, blank dates and amounts show the empty string and \<open>$0.00\<close>,
    the logo slot follows the resolver's state, and the specification's Jane Doe scenario,
    whose pay period is right west of UTC and a day early east of it.
  \<^item> Export: every call reports exactly one outcome and downloads exactly on success, the
    unmounted guard, the success path with its document, exact aspect ratio with clipping on
    the single page for tall captures, and the error toast of every failing path.
  \<^item> Session: in every reachable state toasts plus pending exports equal clicks, each
    download is followed by the success toast, the missing-target toast of the guard never
    appears (the mount sets \<open>paystubRef\<close> before the button can be clicked), the logo is
    the placeholder until its event; every pending export completes by capture settlements
    alone (liveness); the file shows the view at the click; and, with no in-progress guard,
    a second click during a pending export downloads the file a second time.
  \<^item> Across the components (this theory): from a mounted state a run of input events
    ends exactly in the state holding \<open>apply_edits\<close> of the edits, so the preview shows
    the latest record; and mount, edits, one click and its capture give exactly
    \<open>generatePDF\<close> on the rendering of the edited record, which for a clean capture is
    one download of the capture followed by the success toast (with the specification's
    Jane Doe record as witness).

  \<^bold>\<open>Bounds and environment.\<close> No fuel is used: every recursion is structural or has a
  measure (\<open>strip_lead\<close>, \<open>group3\<close>, \<open>year_search\<close>). Time values are integers of
  milliseconds within \<open>max_time\<close> = 8.64e15, as \<open>TimeClip\<close> requires; the date theorems
  assume an offset of less than a day (real offsets are within 14 hours) and a date a day
  away from the range end. The double range of a currency amount is the exact threshold
  \<open>2^1024 - 2^970\<close>. Browser and library behaviour enters only as environment values:
  \<open>date_env\<close> and \<open>export_env\<close>.

  \<^bold>\<open>Not modelled.\<close> The Chakra theme and the style props (lines 24--45 and the JSX
  attributes for colour, size and spacing: no behaviour); the toast UI, html2canvas and jsPDF
  internals (only their results, as environment values); the double rounding of
  \<open>ch * 595.28 / cw\<close>, computed here in exact rationals (ECMA-402 formats a string amount
  exactly, so the currency model needs no double arithmetic beyond the range test); date
  strings other than the date-only forms, which engines parse in their own ways (the
  environment's \<open>parse_fallback\<close>); the pixels and the PNG encoding of captures and of the
  logo; unmounting, which the component has no handler for. Whether a capture is tainted
  is an input of the environment, not derived from \<open>allowTaint\<close> and the view: the only
  image inside the paystub box is the logo's data URL, which cannot taint it.
\<close>

subsection \<open>Properties across the components\<close>

text \<open>
  C20: the preview always reflects the latest edits: from a mounted state, a run of input
  events exists and ends in exactly the state whose record is the edits applied in order,
  so the view the paystub box shows (and a click would capture) is the rendering of that
  record.
\<close>

theorem session_preview_latest:
  assumes "s_mounted s"
  shows "session_run denv eenv s (map (\<lambda>(n, v). InputChange n v) edits) t \<longleftrightarrow>
           t = s\<lparr>s_data := apply_edits edits (s_data s)\<rparr>"
proof
  show "t = s\<lparr>s_data := apply_edits edits (s_data s)\<rparr> \<Longrightarrow>
      session_run denv eenv s (map (\<lambda>(n, v). InputChange n v) edits) t"
    using session_run_inputs [OF assms] by simp
next
  show "session_run denv eenv s (map (\<lambda>(n, v). InputChange n v) edits) t \<Longrightarrow>
      t = s\<lparr>s_data := apply_edits edits (s_data s)\<rparr>"
    using assms
  proof (induction edits arbitrary: s)
    case Nil
    then show ?case by (auto elim: session_run.cases)
  next
    case (Cons e edits)
    obtain n v where e: "e = (n, v)" by fastforce
    obtain s1 where "session_step denv eenv s (InputChange n v) s1"
        "session_run denv eenv s1 (map (\<lambda>(n, v). InputChange n v) edits) t"
      using Cons.prems(1) e by (auto elim: session_run.cases)
    moreover from this(1) have "s1 = s\<lparr>s_data := handleInputChange n v (s_data s)\<rparr>"
      by (rule session_input_step_data)
    ultimately show ?case
      using Cons.IH [of s1] Cons.prems(2) e by simp
  qed
qed

text \<open>
  C5: the end-to-end path from the form to the file: mount, any edits, one click and the
  settling of its capture give exactly the effects of \<open>generatePDF\<close> on the rendering of
  the edited record (with the logo still pending); with a clean capture this is one download
  of \<open>evmos-dao-paystub.pdf\<close> holding the capture as its only image, then the success toast.
\<close>

theorem export_after_edits:
  assumes "rasterize eenv capture_options (render_paystub denv initial_logo (apply_edits edits initial_paystub)) = Inr c"
    and "\<not> cv_tainted c" and "0 < cv_width c" and "0 < cv_height c"
    and "add_image_error eenv = (\<lambda>_ _. None)" and "save_error eenv = (\<lambda>_ _. None)"
  shows "\<exists>t. session_run denv eenv initial_session
      (Mount # map (\<lambda>(n, v). InputChange n v) edits @ [ClickGenerate, CaptureSettles 0]) t \<and>
    s_effects t = generatePDF eenv True (render_paystub denv initial_logo (apply_edits edits initial_paystub)) \<and>
    downloads (s_effects t) =
      [(''evmos-dao-paystub.pdf'', new_jsPDF\<lparr>pdf_images :=
         [place_image new_jsPDF c (''data:image/png;base64,'' @ cv_png c)]\<rparr>)] \<and>
    toasts (s_effects t) = [success_toast]"
proof -
  let ?d = "apply_edits edits initial_paystub"
  let ?v = "render_paystub denv initial_logo ?d"
  let ?s1 = "initial_session\<lparr>s_mounted := True\<rparr>"
  let ?s2 = "?s1\<lparr>s_data := ?d\<rparr>"
  let ?s3 = "?s2\<lparr>s_jobs := [(0, ?v)], s_next := 1\<rparr>"
  let ?s4 = "?s3\<lparr>s_jobs := [], s_effects := generatePDF_finish eenv (rasterize eenv capture_options ?v)\<rparr>"
  have r1: "session_step denv eenv initial_session Mount ?s1"
    by (rule session_step.mount) (simp add: initial_session_def)
  have r2: "session_run denv eenv ?s1 (map (\<lambda>(n, v). InputChange n v) edits) ?s2"
    using session_run_inputs [of ?s1 denv eenv edits] by (simp add: initial_session_def)
  have r3: "session_run denv eenv ?s2 [ClickGenerate, CaptureSettles 0] ?s4"
    by (rule session_run_fn_sound) (simp add: initial_session_def current_view_def)
  have run: "session_run denv eenv initial_session
      (Mount # map (\<lambda>(n, v). InputChange n v) edits @ [ClickGenerate, CaptureSettles 0]) ?s4"
    using session_run.run_cons [OF r1 session_run_append [OF r2 r3]] .
  have eff: "s_effects ?s4 = generatePDF eenv True ?v"
    by (simp add: initial_session_def generatePDF_mounted)
  have fin: "generatePDF eenv True ?v =
      [Download export_file_name (new_jsPDF\<lparr>pdf_images :=
         [place_image new_jsPDF c (''data:image/png;base64,'' @ cv_png c)]\<rparr>), ShowToast success_toast]"
    using assms
    by (simp add: generatePDF_def generatePDF_start_def generatePDF_finish_def capture_data_url_def canvas_to_data_url_def
        new_jsPDF_def)
  show ?thesis
    using run eff fin by (auto simp: export_file_name_def)
qed

subsection \<open>Witnesses\<close>

abbreviation jane_doe_edits :: "(js_string \<times> js_string) list" where
  "jane_doe_edits \<equiv> [(''name'', ''Jane Doe''), (''payPeriodStart'', ''2024-01-01''),
     (''payPeriodEnd'', ''2024-01-15''), (''payDate'', ''2024-01-16''), (''grossPay'', ''2500''),
     (''ytdGross'', ''2500''), (''transactionHash'', ''0xabc''), (''safeUrl'', ''https://safe.example/tx/1'')]"

lemma jane_doe_edits_record: "apply_edits jane_doe_edits initial_paystub = jane_doe"
  by (simp add: handleInputChange_def field_of_name_def all_fields_def jane_doe_def initial_paystub_def)

lemma session_preview_latest_witness:
  "s_mounted (initial_session\<lparr>s_mounted := True\<rparr>) \<and>
   session_run demo_denv demo_eenv (initial_session\<lparr>s_mounted := True\<rparr>)
     (map (\<lambda>(n, v). InputChange n v) jane_doe_edits)
     (initial_session\<lparr>s_mounted := True, s_data := jane_doe\<rparr>)"
proof -
  have m: "s_mounted (initial_session\<lparr>s_mounted := True\<rparr>)" by simp
  have "s_data (initial_session\<lparr>s_mounted := True\<rparr>) = initial_paystub"
    by (simp add: initial_session_def)
  then show ?thesis
    using session_preview_latest [OF m, of demo_denv demo_eenv jane_doe_edits
        "initial_session\<lparr>s_mounted := True, s_data := jane_doe\<rparr>"] jane_doe_edits_record m
    by simp
qed

lemma export_after_edits_witness:
  "rasterize demo_eenv capture_options (render_paystub demo_denv initial_logo (apply_edits jane_doe_edits initial_paystub)) =
     Inr \<lparr>cv_width = 1190, cv_height = 1600, cv_png = ''Jane Doe'', cv_tainted = False\<rparr> \<and>
   (\<exists>t. session_run demo_denv demo_eenv initial_session
      (Mount # map (\<lambda>(n, v). InputChange n v) jane_doe_edits @ [ClickGenerate, CaptureSettles 0]) t \<and>
    downloads (s_effects t) =
      [(''evmos-dao-paystub.pdf'', new_jsPDF\<lparr>pdf_images :=
         [place_image new_jsPDF \<lparr>cv_width = 1190, cv_height = 1600, cv_png = ''Jane Doe'', cv_tainted = False\<rparr>
            ''data:image/png;base64,Jane Doe'']\<rparr>)] \<and>
    toasts (s_effects t) = [success_toast])"
proof -
  have h: "rasterize demo_eenv capture_options (render_paystub demo_denv initial_logo (apply_edits jane_doe_edits initial_paystub)) =
     Inr \<lparr>cv_width = 1190, cv_height = 1600, cv_png = ''Jane Doe'', cv_tainted = False\<rparr>"
    unfolding jane_doe_edits_record by (simp add: render_paystub_def or_na_def jane_doe_def)
  have "\<not> cv_tainted \<lparr>cv_width = 1190, cv_height = 1600, cv_png = ''Jane Doe'', cv_tainted = False\<rparr>"
      "0 < cv_width \<lparr>cv_width = 1190, cv_height = 1600, cv_png = ''Jane Doe'', cv_tainted = False\<rparr>"
      "0 < cv_height \<lparr>cv_width = 1190, cv_height = 1600, cv_png = ''Jane Doe'', cv_tainted = False\<rparr>"
      "add_image_error demo_eenv = (\<lambda>_ _. None)" "save_error demo_eenv = (\<lambda>_ _. None)"
    by simp_all
  from export_after_edits [OF h this] show ?thesis
    using h by (simp only: capture_canvas.select_convs append_Cons append_Nil) blast
qed

end
